theory Spec2Isabelle
  imports Main "HOL-Library.Countable"
begin

section \<open>Python values and errors\<close>

text \<open>
  The exceptions the modelled code can raise. Each carries the message of the raise.
\<close>

datatype error =
  ValueError string
| AttributeError string
| TypeError string
| IndexError string
| OverflowError string

text \<open>
  The dynamically typed values that the library receives where its annotations say
  \<open>Any\<close>, or where it applies \<open>isinstance\<close> or \<open>str\<close> to an argument: integers,
  booleans (a subclass of \<open>int\<close> in Python), strings and \<open>None\<close>.
\<close>

datatype pyval =
  PInt int
| PBool bool
| PStr string
| PNone

text \<open>\<open>isinstance(v, int)\<close> together with the integer value: \<open>True\<close> is the integer 1.\<close>

fun py_as_int :: "pyval \<Rightarrow> int option" where
  "py_as_int (PInt n) = Some n"
| "py_as_int (PBool b) = Some (if b then 1 else 0)"
| "py_as_int (PStr s) = None"
| "py_as_int PNone = None"

text \<open>Python's \<open>==\<close> on these values: numbers compare by value, across \<open>int\<close> and \<open>bool\<close>.\<close>

fun py_eq :: "pyval \<Rightarrow> pyval \<Rightarrow> bool" where
  "py_eq (PStr s) (PStr t) = (s = t)"
| "py_eq PNone PNone = True"
| "py_eq a b = (case (py_as_int a, py_as_int b) of
                  (Some m, Some n) \<Rightarrow> m = n
                | _ \<Rightarrow> False)"

section \<open>Keys\<close>

text \<open>
  \<open>class Key\<close>, \<open>class ValueKey(Key)\<close> and \<open>class UniqueKey(Key)\<close>. A \<open>ValueKey\<close> stores
  \<open>_value\<close>; a \<open>UniqueKey\<close> stores \<open>_hash\<close>, the token that \<open>uuid.uuid4()\<close> returned when
  the instance was constructed.
\<close>

type_synonym uuid = nat

datatype key =
  Key
| ValueKey pyval
| UniqueKey uuid

fun isinstance_ValueKey :: "key \<Rightarrow> bool" where
  "isinstance_ValueKey (ValueKey v) = True"
| "isinstance_ValueKey k = False"

fun isinstance_UniqueKey :: "key \<Rightarrow> bool" where
  "isinstance_UniqueKey (UniqueKey u) = True"
| "isinstance_UniqueKey k = False"

text \<open>The three \<open>__eq__\<close> methods, each on the fields of its own class.\<close>

definition Key_eq :: "key \<Rightarrow> bool" where
  "Key_eq other = True"

fun ValueKey_eq :: "pyval \<Rightarrow> key \<Rightarrow> bool" where
  "ValueKey_eq v other =
     (if \<not> isinstance_ValueKey other then False
      else (case other of ValueKey w \<Rightarrow> py_eq v w | _ \<Rightarrow> False))"

fun UniqueKey_eq :: "uuid \<Rightarrow> key \<Rightarrow> bool" where
  "UniqueKey_eq u other =
     (if \<not> isinstance_UniqueKey other then False
      else (case other of UniqueKey u' \<Rightarrow> u = u' | _ \<Rightarrow> False))"

text \<open>\<open>self.__eq__(other)\<close>: the method of the receiver's class.\<close>

fun key_eq :: "key \<Rightarrow> key \<Rightarrow> bool" where
  "key_eq Key other = Key_eq other"
| "key_eq (ValueKey v) other = ValueKey_eq v other"
| "key_eq (UniqueKey u) other = UniqueKey_eq u other"

text \<open>
  The expression \<open>a == b\<close>: when the class of \<open>b\<close> is a proper subclass of the class of
  \<open>a\<close> and overrides \<open>__eq__\<close>, Python asks \<open>b\<close> first. \<open>ValueKey\<close> and \<open>UniqueKey\<close> are
  such subclasses of \<open>Key\<close>, and none of the three methods returns \<open>NotImplemented\<close>.
\<close>

fun key_eq_operator :: "key \<Rightarrow> key \<Rightarrow> bool" where
  "key_eq_operator Key (ValueKey v) = key_eq (ValueKey v) Key"
| "key_eq_operator Key (UniqueKey u) = key_eq (UniqueKey u) Key"
| "key_eq_operator a b = key_eq a b"

text \<open>
  \<open>UniqueKey()\<close>: the constructor draws the token from the generator. The generator is
  the sequence of tokens that the successive calls of \<open>uuid.uuid4()\<close> return.
\<close>

definition UniqueKey_init :: "(nat \<Rightarrow> uuid) \<Rightarrow> nat \<Rightarrow> key \<times> nat" where
  "UniqueKey_init gen n = (UniqueKey (gen n), Suc n)"

text \<open>
  \<open>count\<close> constructions \<open>UniqueKey()\<close> one after another, from the state \<open>s\<close> of the
  generator: the instances in their order, and the state left.
\<close>

fun UniqueKeys :: "(nat \<Rightarrow> uuid) \<Rightarrow> nat \<Rightarrow> nat \<Rightarrow> key list \<times> nat" where
  "UniqueKeys gen s 0 = ([], s)"
| "UniqueKeys gen s (Suc count) =
     (case UniqueKey_init gen s of
        (k, s') \<Rightarrow> (case UniqueKeys gen s' count of (ks, s'') \<Rightarrow> (k # ks, s'')))"

text \<open>A generator whose draws all return the same token.\<close>

definition repeating_uuid4 :: "nat \<Rightarrow> uuid" where
  "repeating_uuid4 n = 0"

section \<open>Formatting\<close>

text \<open>\<open>str(n)\<close> and \<open>'%d' % n\<close> of an integer: its decimal digits, with a leading minus sign.\<close>

definition digit_char :: "nat \<Rightarrow> char" where
  "digit_char d = ''0123456789'' ! d"

fun str_nat :: "nat \<Rightarrow> string" where
  "str_nat n =
     (if n < 10 then [digit_char n] else str_nat (n div 10) @ [digit_char (n mod 10)])"

declare str_nat.simps [simp del]

definition str_int :: "int \<Rightarrow> string" where
  "str_int i = (if i < 0 then CHR ''-'' # str_nat (nat (- i)) else str_nat (nat i))"

definition str_bool :: "bool \<Rightarrow> string" where
  "str_bool b = (if b then ''True'' else ''False'')"

text \<open>\<open>str(v)\<close> of a value; \<open>repr(v)\<close> differs on strings only, where it quotes.\<close>

fun py_str :: "pyval \<Rightarrow> string" where
  "py_str (PInt n) = str_int n"
| "py_str (PBool b) = str_bool b"
| "py_str (PStr s) = s"
| "py_str PNone = ''None''"

text \<open>\<open>sep.join(xs)\<close>.\<close>

fun join :: "string \<Rightarrow> string list \<Rightarrow> string" where
  "join sep [] = []"
| "join sep [x] = x"
| "join sep (x # y # ys) = x @ sep @ join sep (y # ys)"

text \<open>
  The two builtins whose results the interpreter fixes and the library only consumes:
  \<open>hash\<close> on strings (salted once per process) and \<open>repr\<close> on strings.
\<close>

record builtins =
  py_hash :: "string \<Rightarrow> int"
  py_repr_str :: "string \<Rightarrow> string"

fun py_repr :: "builtins \<Rightarrow> pyval \<Rightarrow> string" where
  "py_repr B (PStr s) = py_repr_str B s"
| "py_repr B v = py_str v"

text \<open>\<open>str(xs)\<close> of a list: the \<open>repr\<close> of the elements, between brackets.\<close>

definition str_list :: "string list \<Rightarrow> string" where
  "str_list reprs = ''['' @ join '', '' reprs @ '']''"

text \<open>Indexing \<open>xs[i]\<close>: a negative index counts from the end; out of range raises.\<close>

definition py_index :: "'a list \<Rightarrow> int \<Rightarrow> error + 'a" where
  "py_index xs i =
     (if 0 \<le> i \<and> i < int (length xs) then Inr (xs ! nat i)
      else if i < 0 \<and> - int (length xs) \<le> i then Inr (xs ! nat (int (length xs) + i))
      else Inl (IndexError ''list index out of range''))"

text \<open>\<open>range(n)\<close>: empty when \<open>n\<close> is not positive.\<close>

definition py_range :: "int \<Rightarrow> int list" where
  "py_range n = map int [0..<nat n]"

section \<open>Build context and widgets\<close>

text \<open>
  \<open>class BuildContext\<close>: \<open>_application\<close> is a reference to the owning application (absent
  when the context was constructed with a false value), \<open>counter\<close> starts at 0.
\<close>

type_synonym app_ref = nat

record BuildContext =
  bc_application :: "app_ref option"
  counter :: int

definition BuildContext_init :: "app_ref option \<Rightarrow> BuildContext" where
  "BuildContext_init application = \<lparr>bc_application = application, counter = 0\<rparr>"

text \<open>The fields every widget inherits from \<open>class Widget\<close>: \<open>_key\<close>, \<open>_context\<close>, \<open>_hash\<close>.\<close>

record base =
  w_key :: key
  w_context :: "BuildContext option"
  w_hash :: int

definition Widget_init :: "key \<Rightarrow> base" where
  "Widget_init k = \<lparr>w_key = k, w_context = None, w_hash = 0\<rparr>"

definition Widget_build :: "BuildContext \<Rightarrow> base \<Rightarrow> base" where
  "Widget_build ctx b = b\<lparr>w_context := Some ctx, w_hash := 0\<rparr>"

text \<open>
  A callback is a Python callable: the name of its class, which is what \<open>type(f)\<close>
  prints, and the identity of the object.
\<close>

datatype callback = Callback string nat

definition quote :: char where
  "quote = CHR 0x27"

text \<open>\<open>'%s' % type(f)\<close>, also for \<open>f = None\<close>.\<close>

fun str_type :: "callback option \<Rightarrow> string" where
  "str_type None = ''<class '' @ [quote] @ ''NoneType'' @ [quote] @ ''>''"
| "str_type (Some (Callback cls ident)) = ''<class '' @ [quote] @ cls @ [quote] @ ''>''"

datatype alignment =
  Alignment_none
| Alignment_start
| Alignment_center
| Alignment_end

text \<open>
  The concrete widget classes with their fields in the order of their constructors'
  assignments. \<open>Column\<close> and \<open>Row\<close> keep the declared children (entries may be \<open>None\<close>)
  and the attribute \<open>_child\<close>, which exists only after \<open>build\<close>. An \<open>Expanded\<close> keeps
  the integer value of its validated \<open>flex\<close>. An \<open>AxisAlignedBox\<close> keeps the child list
  its constructor assembled and \<open>_vertical\<close>.
\<close>

datatype widget =
  Text base string
| LabelButton base string string "callback option"
| TextField base string string "callback option" bool
| Expanded base widget int
| AxisAlignedBox base "widget list" bool
| Column base "widget option list" alignment "widget option"
| Row base "widget option list" alignment "widget option"
| TableView base int int "pyval list" "pyval list list" "callback option" "callback option"
| DropdownList base "string list" int "callback option"

fun base_of :: "widget \<Rightarrow> base" where
  "base_of (Text b t) = b"
| "base_of (LabelButton b l t f) = b"
| "base_of (TextField b p v f h) = b"
| "base_of (Expanded b c n) = b"
| "base_of (AxisAlignedBox b cs v) = b"
| "base_of (Column b cs al ch) = b"
| "base_of (Row b cs al ch) = b"
| "base_of (TableView b r c hs d s f) = b"
| "base_of (DropdownList b its i f) = b"

definition hash_of :: "widget \<Rightarrow> int" where
  "hash_of w = w_hash (base_of w)"

definition context_of :: "widget \<Rightarrow> BuildContext option" where
  "context_of w = w_context (base_of w)"

fun isinstance_Expanded :: "widget \<Rightarrow> bool" where
  "isinstance_Expanded (Expanded b c n) = True"
| "isinstance_Expanded w = False"

subsection \<open>Constructors\<close>

definition Text_init :: "string option \<Rightarrow> key \<Rightarrow> widget" where
  "Text_init text k =
     (let b = Widget_init k;
          text' = (case text of None \<Rightarrow> '''' | Some t \<Rightarrow> t)
      in Text b text')"

definition LabelButton_init ::
  "key \<Rightarrow> string \<Rightarrow> string \<Rightarrow> callback option \<Rightarrow> widget" where
  "LabelButton_init k label tooltip onTap = LabelButton (Widget_init k) label tooltip onTap"

definition TextField_init ::
  "key \<Rightarrow> string \<Rightarrow> string \<Rightarrow> bool \<Rightarrow> callback option \<Rightarrow> widget" where
  "TextField_init k placeholder val hidden onChanged =
     TextField (Widget_init k) placeholder val onChanged hidden"

text \<open>\<open>Expanded.__init__\<close>: the two checks in the order of the source.\<close>

definition Expanded_init :: "key \<Rightarrow> widget option \<Rightarrow> pyval \<Rightarrow> error + widget" where
  "Expanded_init k child flex =
     (let b = Widget_init k in
      case child of
        None \<Rightarrow> Inl (ValueError ''Expanded must have a non-null child'')
      | Some c \<Rightarrow>
          (case py_as_int flex of
             None \<Rightarrow> Inl (ValueError ''flex must be a non-negative integer'')
           | Some n \<Rightarrow>
               if n \<le> 0 then Inl (ValueError ''flex must be a non-negative integer'')
               else Inr (Expanded b c n)))"

text \<open>\<open>AxisAlignedBox.__init__\<close>: the two loops over \<open>children\<close>, then the constructor.\<close>

fun stat_expanded :: "bool \<Rightarrow> widget option list \<Rightarrow> bool" where
  "stat_expanded has_expanded [] = has_expanded"
| "stat_expanded has_expanded (child # children) =
     stat_expanded
       (case child of
          None \<Rightarrow> has_expanded
        | Some c \<Rightarrow> if isinstance_Expanded c then True else has_expanded)
       children"

fun add_children :: "widget list \<Rightarrow> widget option list \<Rightarrow> widget list" where
  "add_children acc [] = acc"
| "add_children acc (child # children) =
     add_children (case child of None \<Rightarrow> acc | Some c \<Rightarrow> acc @ [c]) children"

definition fake_alignment :: "error + widget" where
  "fake_alignment = Expanded_init Key (Some (Text_init (Some '''') Key)) (PInt 1)"

definition AxisAlignedBox_init ::
  "key \<Rightarrow> widget option list \<Rightarrow> bool \<Rightarrow> alignment \<Rightarrow> error + widget" where
  "AxisAlignedBox_init k children vertical al =
     (let b = Widget_init k;
          has_expanded = stat_expanded False children
      in case (if \<not> has_expanded \<and> al \<in> {Alignment_center, Alignment_end}
               then (case fake_alignment of Inl e \<Rightarrow> Inl e | Inr s \<Rightarrow> Inr [s])
               else Inr [])
         of Inl e \<Rightarrow> Inl e
          | Inr before \<Rightarrow>
              (let added = add_children before children
               in case (if \<not> has_expanded \<and> al \<in> {Alignment_start, Alignment_center}
                        then (case fake_alignment of
                                Inl e \<Rightarrow> Inl e | Inr s \<Rightarrow> Inr (added @ [s]))
                        else Inr added)
                  of Inl e \<Rightarrow> Inl e
                   | Inr stored \<Rightarrow> Inr (AxisAlignedBox b stored vertical)))"

definition Column_init :: "key \<Rightarrow> widget option list \<Rightarrow> alignment \<Rightarrow> widget" where
  "Column_init k children al = Column (Widget_init k) children al None"

definition Row_init :: "key \<Rightarrow> widget option list \<Rightarrow> alignment \<Rightarrow> widget" where
  "Row_init k children al = Row (Widget_init k) children al None"

definition TableView_init ::
  "key \<Rightarrow> int \<Rightarrow> int \<Rightarrow> pyval list \<Rightarrow> pyval list list \<Rightarrow> callback option
     \<Rightarrow> callback option \<Rightarrow> widget" where
  "TableView_init k rows columns headers data onSelected onChanged =
     TableView (Widget_init k) rows columns headers data onSelected onChanged"

definition DropdownList_init ::
  "key \<Rightarrow> pyval list \<Rightarrow> int \<Rightarrow> callback option \<Rightarrow> widget" where
  "DropdownList_init k items index onChanged =
     DropdownList (Widget_init k) (map py_str items) index onChanged"

section \<open>Painting\<close>

text \<open>
  The native elements that \<open>paintWidget\<close> returns, by what the code sets on them.
  A label has its text. A push button has its label, its tool tip and the slot
  connected to \<open>clicked\<close>, if any. A line edit has its text, whether its echo mode is
  \<open>Password\<close>, and the slot connected to \<open>textChanged\<close>. A table has the counts
  given to \<open>setRowCount\<close> and \<open>setColumnCount\<close>, the text of the items set, the text of
  the header items set, and the two callbacks that its connected closures read. A combo
  box has its items, the index given to \<open>setCurrentIndex\<close> and the callback its
  connected closure reads. A plain \<open>QWidget\<close> carries a box layout: its direction and,
  per slot, the element and the stretch.
\<close>

datatype qt =
  QLabel string
| QPushButton string string "callback option"
| QLineEdit string bool callback
| QTableWidget int int "int \<times> int \<rightharpoonup> string" "int \<rightharpoonup> string"
    "callback option" "callback option"
| QComboBox "string list" int "callback option"
| QWidget bool "(qt \<times> int) list"

text \<open>
  \<open>signal.connect(slot)\<close> of the toolkit: the slot must be a callable, and \<open>None\<close> is
  refused with a \<open>TypeError\<close>.
\<close>

definition pyqt_connect :: "callback option \<Rightarrow> error + callback" where
  "pyqt_connect slot =
     (case slot of
        None \<Rightarrow>
          Inl (TypeError (''argument 1 has unexpected type '' @ [quote] @ ''NoneType'' @ [quote]))
      | Some f \<Rightarrow> Inr f)"

text \<open>
  An integer argument of a toolkit method is converted to a C \<open>int\<close>: a Python integer
  outside the range of 32 bits is refused with an \<open>OverflowError\<close> that names the
  position of the argument.
\<close>

definition in_c_int :: "int \<Rightarrow> bool" where
  "in_c_int n = (- 2147483648 \<le> n \<and> n \<le> 2147483647)"

definition overflowed :: "nat \<Rightarrow> error" where
  "overflowed position =
     OverflowError (''argument '' @ str_nat position
       @ '' overflowed: value must be in the range -2147483648 to 2147483647'')"

definition c_int :: "nat \<Rightarrow> int \<Rightarrow> error + int" where
  "c_int position n = (if in_c_int n then Inr n else Inl (overflowed position))"

text \<open>
  \<open>layout.setStretch(i, flex)\<close>: the stretch is the second argument; an index with no
  slot is ignored by the toolkit.
\<close>

definition setStretch ::
  "nat \<Rightarrow> int \<Rightarrow> (qt \<times> int) list \<Rightarrow> error + (qt \<times> int) list" where
  "setStretch i flex layout =
     (case c_int 2 flex of
        Inl e \<Rightarrow> Inl e
      | Inr stretch \<Rightarrow>
          Inr (if i < length layout then layout[i := (fst (layout ! i), stretch)]
               else layout))"

text \<open>The loop \<open>for i, flex in enumerate(flexes)\<close> of \<open>AxisAlignedBox.paintWidget\<close>.\<close>

fun set_stretches ::
  "(nat \<times> int) list \<Rightarrow> (qt \<times> int) list \<Rightarrow> error + (qt \<times> int) list" where
  "set_stretches [] layout = Inr layout"
| "set_stretches ((i, flex) # rest) layout =
     (case setStretch i flex layout of
        Inl e \<Rightarrow> Inl e
      | Inr layout' \<Rightarrow> set_stretches rest layout')"

text \<open>The flex that the box reads off a child: \<open>child._flex\<close> for an \<open>Expanded\<close>, else 0.\<close>

fun child_flex :: "widget \<Rightarrow> int" where
  "child_flex (Expanded b c n) = n"
| "child_flex w = 0"

text \<open>\<open>TableView._getdataitem\<close>.\<close>

definition TableView_getdataitem :: "pyval list list \<Rightarrow> int \<Rightarrow> int \<Rightarrow> error + string" where
  "TableView_getdataitem data row col =
     (if row < int (length data) then
        (case py_index data row of
           Inl e \<Rightarrow> Inl e
         | Inr r \<Rightarrow>
             if col < int (length r) then
               (case py_index r col of Inl e \<Rightarrow> Inl e | Inr v \<Rightarrow> Inr (py_str v))
             else Inr '''')
      else Inr '''')"

text \<open>The loops of \<open>TableView.paintWidget\<close>: the columns of one row, the rows, the headers.\<close>

fun paint_row ::
  "pyval list list \<Rightarrow> int \<Rightarrow> int list \<Rightarrow> (int \<times> int \<rightharpoonup> string)
     \<Rightarrow> error + (int \<times> int \<rightharpoonup> string)" where
  "paint_row data row [] items = Inr items"
| "paint_row data row (col # cols) items =
     (case TableView_getdataitem data row col of
        Inl e \<Rightarrow> Inl e
      | Inr d \<Rightarrow> paint_row data row cols (items((row, col) \<mapsto> d)))"

fun paint_rows ::
  "pyval list list \<Rightarrow> int list \<Rightarrow> int list \<Rightarrow> (int \<times> int \<rightharpoonup> string)
     \<Rightarrow> error + (int \<times> int \<rightharpoonup> string)" where
  "paint_rows data [] cols items = Inr items"
| "paint_rows data (row # rows) cols items =
     (case paint_row data row cols items of
        Inl e \<Rightarrow> Inl e
      | Inr items' \<Rightarrow> paint_rows data rows cols items')"

fun paint_headers ::
  "pyval list \<Rightarrow> int list \<Rightarrow> (int \<rightharpoonup> string) \<Rightarrow> error + (int \<rightharpoonup> string)" where
  "paint_headers headers [] heads = Inr heads"
| "paint_headers headers (i # rest) heads =
     (case (if i < int (length headers) then py_index headers i else Inr (PInt (i + 1))) of
        Inl e \<Rightarrow> Inl e
      | Inr h \<Rightarrow> paint_headers headers rest (heads(i \<mapsto> py_str h)))"

definition TableView_paintWidget ::
  "int \<Rightarrow> int \<Rightarrow> pyval list \<Rightarrow> pyval list list \<Rightarrow> callback option \<Rightarrow> callback option
     \<Rightarrow> error + qt" where
  "TableView_paintWidget rows cols headers data onselected onchanged =
     (case c_int 1 rows of
        Inl e \<Rightarrow> Inl e
      | Inr rowCount \<Rightarrow>
          (case c_int 1 cols of
             Inl e \<Rightarrow> Inl e
           | Inr columnCount \<Rightarrow>
               (case paint_rows data (py_range rows) (py_range cols) Map.empty of
                  Inl e \<Rightarrow> Inl e
                | Inr items \<Rightarrow>
                    (case paint_headers headers (py_range cols) Map.empty of
                       Inl e \<Rightarrow> Inl e
                     | Inr heads \<Rightarrow>
                         Inr (QTableWidget rowCount columnCount items heads
                                onselected onchanged)))))"

text \<open>
  \<open>paintWidget\<close> of every class. The result is the element the method returns; the
  attributes \<open>_widget\<close>, \<open>_layout\<close> and \<open>_widgets\<close> that the methods also assign hold
  that same element and its parts, and no other method reads them. The loop over the
  children of a box adds each painted child to the layout (with the toolkit's initial
  stretch 0) and appends its flex to \<open>flexes\<close>.
\<close>

fun paintWidget :: "widget \<Rightarrow> error + qt"
  and paint_children ::
    "widget list \<Rightarrow> (qt \<times> int) list \<Rightarrow> int list \<Rightarrow> error + ((qt \<times> int) list \<times> int list)"
where
  "paintWidget (Text b text) = Inr (QLabel text)"
| "paintWidget (LabelButton b label tooltip ontap) =
     (case ontap of
        None \<Rightarrow> Inr (QPushButton label tooltip None)
      | Some f \<Rightarrow>
          (case pyqt_connect ontap of
             Inl e \<Rightarrow> Inl e
           | Inr slot \<Rightarrow> Inr (QPushButton label tooltip (Some slot))))"
| "paintWidget (TextField b placeholder val onchanged hidden) =
     (case pyqt_connect onchanged of
        Inl e \<Rightarrow> Inl e
      | Inr slot \<Rightarrow> Inr (QLineEdit val hidden slot))"
| "paintWidget (Expanded b child flex) = paintWidget child"
| "paintWidget (AxisAlignedBox b children vertical) =
     (case paint_children children [] [] of
        Inl e \<Rightarrow> Inl e
      | Inr (layout, flexes) \<Rightarrow>
          (case set_stretches (enumerate 0 flexes) layout of
             Inl e \<Rightarrow> Inl e
           | Inr layout' \<Rightarrow> Inr (QWidget vertical layout')))"
| "paintWidget (Column b children al None) =
     Inl (AttributeError (quote # ''Column'' @ [quote] @ '' object has no attribute ''
            @ [quote] @ ''_child'' @ [quote]))"
| "paintWidget (Column b children al (Some child)) = paintWidget child"
| "paintWidget (Row b children al None) =
     Inl (AttributeError (quote # ''Row'' @ [quote] @ '' object has no attribute ''
            @ [quote] @ ''_child'' @ [quote]))"
| "paintWidget (Row b children al (Some child)) = paintWidget child"
| "paintWidget (TableView b rows cols headers data onselected onchanged) =
     TableView_paintWidget rows cols headers data onselected onchanged"
| "paintWidget (DropdownList b items index onchanged) =
     (case c_int 1 index of
        Inl e \<Rightarrow> Inl e
      | Inr currentIndex \<Rightarrow> Inr (QComboBox items currentIndex onchanged))"
| "paint_children [] layout flexes = Inr (layout, flexes)"
| "paint_children (child # rest) layout flexes =
     (case paintWidget child of
        Inl e \<Rightarrow> Inl e
      | Inr widget \<Rightarrow> paint_children rest (layout @ [(widget, 0)]) (flexes @ [child_flex child]))"

section \<open>Building\<close>

text \<open>
  \<open>super().build(context)\<close> followed by the assignment of the class's own hash.
\<close>

definition built :: "BuildContext \<Rightarrow> int \<Rightarrow> base \<Rightarrow> base" where
  "built ctx h b = (Widget_build ctx b)\<lparr>w_hash := h\<rparr>"

text \<open>\<open>str(self._data)\<close> of a table's data, a list of lists.\<close>

definition str_data :: "builtins \<Rightarrow> pyval list list \<Rightarrow> string" where
  "str_data B data = str_list (map (\<lambda>row. str_list (map (py_repr B) row)) data)"

text \<open>
  A measure for the recursion of \<open>build\<close>: a \<open>Column\<close> or \<open>Row\<close> builds a box that its
  \<open>build\<close> constructs from the declared children, which is not one of its parts.
\<close>

fun msize :: "widget \<Rightarrow> nat" where
  "msize (Text b t) = 1"
| "msize (LabelButton b l t f) = 1"
| "msize (TextField b p v f h) = 1"
| "msize (Expanded b c n) = Suc (msize c)"
| "msize (AxisAlignedBox b cs v) = Suc (sum_list (map msize cs) + length cs)"
| "msize (Column b cs al ch) =
     8 + sum_list (map (\<lambda>c. case c of None \<Rightarrow> 0 | Some w \<Rightarrow> Suc (msize w)) cs)"
| "msize (Row b cs al ch) =
     8 + sum_list (map (\<lambda>c. case c of None \<Rightarrow> 0 | Some w \<Rightarrow> Suc (msize w)) cs)"
| "msize (TableView b r c hs d s f) = 1"
| "msize (DropdownList b its i f) = 1"

lemma add_children_msize:
  "sum_list (map msize (add_children acc cs)) + length (add_children acc cs)
   = sum_list (map msize acc) + length acc
     + sum_list (map (\<lambda>c. case c of None \<Rightarrow> 0 | Some w \<Rightarrow> Suc (msize w)) cs)"
  by (induction cs arbitrary: acc) (auto split: option.splits)

lemma fake_alignment_eq:
  "fake_alignment = Inr (Expanded (Widget_init Key) (Text (Widget_init Key) []) 1)"
  by (simp add: fake_alignment_def Expanded_init_def Text_init_def)

lemma AxisAlignedBox_init_msize:
  "AxisAlignedBox_init k cs v al = Inr box \<Longrightarrow>
   msize box < 8 + sum_list (map (\<lambda>c. case c of None \<Rightarrow> 0 | Some w \<Rightarrow> Suc (msize w)) cs)"
  by (auto simp: AxisAlignedBox_init_def Let_def fake_alignment_eq add_children_msize
      split: if_splits)

text \<open>
  \<open>build\<close> of every class, and the loop \<open>for child in self._children: child.build(context)\<close>
  of the box. The children that a \<open>Column\<close> or \<open>Row\<close> declares are the very objects its
  box holds; their built state is the one recorded in the box stored as \<open>_child\<close>.
\<close>

function build :: "builtins \<Rightarrow> BuildContext \<Rightarrow> widget \<Rightarrow> error + widget"
  and build_children :: "builtins \<Rightarrow> BuildContext \<Rightarrow> widget list \<Rightarrow> error + widget list"
where
  "build B ctx (Text b text) =
     Inr (Text (built ctx (py_hash B (''Text(text='' @ text @ '')'')) b) text)"
| "build B ctx (LabelButton b label tooltip ontap) =
     Inr (LabelButton
            (built ctx
               (py_hash B (''LabelButton(label='' @ label @ '',tooltip='' @ tooltip
                            @ '',onTap='' @ str_type ontap @ '')'')) b)
            label tooltip ontap)"
| "build B ctx (TextField b placeholder val onchanged hidden) =
     Inr (TextField
            (built ctx
               (py_hash B (''TextField(placeholder='' @ placeholder @ '',hidden=''
                            @ str_bool hidden @ '',onChanged='' @ str_type onchanged @ '')'')) b)
            placeholder val onchanged hidden)"
| "build B ctx (Expanded b child flex) =
     (case build B ctx child of
        Inl e \<Rightarrow> Inl e
      | Inr child' \<Rightarrow>
          Inr (Expanded
                 (built ctx
                    (py_hash B (''Expanded(child='' @ str_int (hash_of child') @ '',flex=''
                                 @ str_int flex @ '')'')) b)
                 child' flex))"
| "build B ctx (AxisAlignedBox b children vertical) =
     (case build_children B ctx children of
        Inl e \<Rightarrow> Inl e
      | Inr children' \<Rightarrow>
          Inr (AxisAlignedBox
                 (built ctx
                    (py_hash B (''AxisAlignedBox(children=[''
                                 @ join '','' (map (\<lambda>child. str_int (hash_of child)) children')
                                 @ ''])'')) b)
                 children' vertical))"
| "build B ctx (Column b children al ch) =
     (case AxisAlignedBox_init Key children True al of
        Inl e \<Rightarrow> Inl e
      | Inr box \<Rightarrow>
          (case build B ctx box of
             Inl e \<Rightarrow> Inl e
           | Inr child \<Rightarrow>
               Inr (Column
                      (built ctx (py_hash B (''Column('' @ str_int (hash_of child) @ '')'')) b)
                      children al (Some child))))"
| "build B ctx (Row b children al ch) =
     (case AxisAlignedBox_init Key children False al of
        Inl e \<Rightarrow> Inl e
      | Inr box \<Rightarrow>
          (case build B ctx box of
             Inl e \<Rightarrow> Inl e
           | Inr child \<Rightarrow>
               Inr (Row
                      (built ctx (py_hash B (''Row('' @ str_int (hash_of child) @ '')'')) b)
                      children al (Some child))))"
| "build B ctx (TableView b rows cols headers data onselected onchanged) =
     Inr (TableView
            (built ctx
               (py_hash B (''TableView(rows='' @ str_int rows @ '',columns='' @ str_int cols
                            @ '',data='' @ str_data B data @ '')'')) b)
            rows cols headers data onselected onchanged)"
| "build B ctx (DropdownList b items index onchanged) =
     Inr (DropdownList
            (built ctx
               (py_hash B (''DropdownList(items=''
                            @ join '','' (map (\<lambda>i. str_int (py_hash B i)) items) @ '')'')) b)
            items index onchanged)"
| "build_children B ctx [] = Inr []"
| "build_children B ctx (child # rest) =
     (case build B ctx child of
        Inl e \<Rightarrow> Inl e
      | Inr child' \<Rightarrow>
          (case build_children B ctx rest of
             Inl e \<Rightarrow> Inl e
           | Inr rest' \<Rightarrow> Inr (child' # rest')))"
  by pat_completeness auto

termination
  by (relation "measure (\<lambda>x. case x of
          Inl (B, ctx, w) \<Rightarrow> msize w
        | Inr (B, ctx, ws) \<Rightarrow> sum_list (map msize ws) + length ws)")
     (auto dest: AxisAlignedBox_init_msize)

section \<open>Application\<close>

text \<open>
  What the application asks of the toolkit beyond the elements it creates: a
  \<open>QApplication\<close> is constructed, the window is shown, the event loop is entered.
\<close>

datatype host_call =
  QApplication_new
| QWidget_show
| QApplication_exec

text \<open>The top-level \<open>QWidget\<close> of \<open>run\<close>: its title, its size when resized, whether shown.\<close>

record window =
  win_title :: string
  win_size :: "(int \<times> int) option"
  win_shown :: bool

text \<open>
  \<open>class Application\<close>. \<open>app_self\<close> is the reference by which the build context points
  back to the application. \<open>_layout\<close> is not assigned by the constructor: the
  attribute is absent until \<open>run\<close>. \<open>_application\<close> holds the \<open>QApplication\<close>, named
  by the number of toolkit calls made before its construction. The builder is the
  user's function from the context to a widget tree; calling it may raise.
\<close>

record Application =
  app_self :: app_ref
  app_context :: BuildContext
  app_builder :: "(BuildContext \<Rightarrow> error + widget) option"
  app_title :: string
  app_state :: "widget option"
  app_running :: bool
  app_widget :: "window option"
  app_frame :: "unit option"
  app_application :: "nat option"
  app_windowsize :: "int option \<times> int option"
  app_layout :: "qt list option"

definition Application_init ::
  "app_ref \<Rightarrow> BuildContext option \<Rightarrow> (BuildContext \<Rightarrow> error + widget) option \<Rightarrow> string
     \<Rightarrow> int option \<Rightarrow> int option \<Rightarrow> Application" where
  "Application_init self context builder title width height =
     \<lparr>app_self = self,
      app_context = (case context of
                       None \<Rightarrow> BuildContext_init (Some self)
                     | Some c \<Rightarrow> c\<lparr>bc_application := Some self\<rparr>),
      app_builder = builder,
      app_title = title,
      app_state = None,
      app_running = False,
      app_widget = None,
      app_frame = None,
      app_application = None,
      app_windowsize = (width, height),
      app_layout = None\<rparr>"

text \<open>Calling \<open>self._builder(self._context)\<close>; \<open>None\<close> is not callable.\<close>

definition call_builder :: "Application \<Rightarrow> error + widget" where
  "call_builder app =
     (case app_builder app of
        None \<Rightarrow>
          Inl (TypeError (quote # ''NoneType'' @ [quote] @ '' object is not callable''))
      | Some builder \<Rightarrow> builder (app_context app))"

text \<open>
  \<open>Application.setState\<close>. \<open>takeAt(0)\<close> of an empty layout gives \<open>None\<close>, on which
  \<open>.widget()\<close> raises.
\<close>

definition Application_setState :: "builtins \<Rightarrow> Application \<Rightarrow> error + Application" where
  "Application_setState B app =
     (case call_builder app of
        Inl e \<Rightarrow> Inl e
      | Inr newState \<Rightarrow>
          (case build B (app_context app) newState of
             Inl e \<Rightarrow> Inl e
           | Inr newState' \<Rightarrow>
               (case app_layout app of
                  None \<Rightarrow>
                    Inl (AttributeError (quote # ''Application'' @ [quote]
                           @ '' object has no attribute '' @ [quote] @ ''_layout'' @ [quote]))
                | Some [] \<Rightarrow>
                    Inl (AttributeError (quote # ''NoneType'' @ [quote]
                           @ '' object has no attribute '' @ [quote] @ ''widget'' @ [quote]))
                | Some (oldWidget # rest) \<Rightarrow>
                    (case paintWidget newState' of
                       Inl e \<Rightarrow> Inl e
                     | Inr widget \<Rightarrow> Inr (app\<lparr>app_layout := Some (rest @ [widget])\<rparr>)))))"

text \<open>
  The resize of \<open>run\<close>: \<open>self._widget.resize(_width, _height)\<close> when neither is
  \<open>None\<close>, and no call otherwise. The result is the size the window was given, if any.
\<close>

definition resize :: "int option \<times> int option \<Rightarrow> error + (int \<times> int) option" where
  "resize windowsize =
     (case windowsize of
        (Some width, Some height) \<Rightarrow>
          (case c_int 1 width of
             Inl e \<Rightarrow> Inl e
           | Inr w \<Rightarrow>
               (case c_int 2 height of
                  Inl e \<Rightarrow> Inl e
                | Inr h \<Rightarrow> Inr (Some (w, h))))
      | _ \<Rightarrow> Inr None)"

text \<open>
  \<open>Application.run\<close>, with the toolkit calls appended to the trace of the host. The
  event loop is the one that returns without having dispatched an event.
\<close>

definition run ::
  "builtins \<Rightarrow> Application \<Rightarrow> host_call list \<Rightarrow> error + (Application \<times> host_call list)" where
  "run B app host =
     (if app_running app then Inr (app, host)
      else
        (case call_builder app of
           Inl e \<Rightarrow> Inl e
         | Inr state \<Rightarrow>
             (case build B (app_context app) state of
                Inl e \<Rightarrow> Inl e
              | Inr state' \<Rightarrow>
                  (case paintWidget state' of
                     Inl e \<Rightarrow> Inl e
                   | Inr widget \<Rightarrow>
                       (case resize (app_windowsize app) of
                          Inl e \<Rightarrow> Inl e
                        | Inr given \<Rightarrow>
                            Inr (app\<lparr>app_state := Some state',
                                     app_application := Some (length host),
                                     app_widget :=
                                       Some \<lparr>win_title = app_title app,
                                             win_size = given,
                                             win_shown = True\<rparr>,
                                     app_layout := Some [widget]\<rparr>,
                                 host @ [QApplication_new, QWidget_show,
                                         QApplication_exec]))))))"

section \<open>Requesting a repaint\<close>

text \<open>
  \<open>BuildContext.setState\<close>: the application that \<open>_application\<close> refers to is the state
  the call acts on.
\<close>

definition BuildContext_setState ::
  "builtins \<Rightarrow> BuildContext \<Rightarrow> Application \<Rightarrow> error + Application" where
  "BuildContext_setState B ctx app =
     (case bc_application ctx of
        None \<Rightarrow> Inr app
      | Some r \<Rightarrow> Application_setState B app)"

text \<open>
  The methods that an attribute lookup finds on an instance of \<open>class BuildContext\<close>.
  The class defines \<open>__init__\<close> and \<open>setState\<close>; its instances carry the data
  attributes \<open>_application\<close> and \<open>counter\<close>.
\<close>

datatype BuildContext_method = Method_setState

definition BuildContext_methods :: "string \<rightharpoonup> BuildContext_method" where
  "BuildContext_methods = [''setState'' \<mapsto> Method_setState]"

text \<open>
  \<open>Widget.setState\<close>: the lines printed, and the outcome of \<open>self._context.repaint()\<close>.
\<close>

definition Widget_setState ::
  "builtins \<Rightarrow> widget \<Rightarrow> Application \<Rightarrow> string list \<times> (error + Application)" where
  "Widget_setState B w app =
     (let printed = (if context_of w = None
                     then [''attempted setState() on an unbuilt widget''] else [])
      in (printed,
          case context_of w of
            None \<Rightarrow>
              Inl (AttributeError (quote # ''NoneType'' @ [quote]
                     @ '' object has no attribute '' @ [quote] @ ''repaint'' @ [quote]))
          | Some ctx \<Rightarrow>
              (case BuildContext_methods ''repaint'' of
                 None \<Rightarrow>
                   Inl (AttributeError (quote # ''BuildContext'' @ [quote]
                          @ '' object has no attribute '' @ [quote] @ ''repaint'' @ [quote]))
               | Some Method_setState \<Rightarrow> BuildContext_setState B ctx app)))"

section \<open>Notions used by the statements\<close>

text \<open>The synthetic child: \<open>Expanded(child=Text(''), flex=1)\<close>, with the default keys.\<close>

definition spacer :: widget where
  "spacer = Expanded (Widget_init Key) (Text (Widget_init Key) '''') 1"

text \<open>The entries of a declared child list that are not \<open>None\<close>, in their order.\<close>

definition not_None :: "'a option list \<Rightarrow> 'a list" where
  "not_None xs = map the (filter (\<lambda>x. x \<noteq> None) xs)"

text \<open>Some declared child that is not \<open>None\<close> is an \<open>Expanded\<close>.\<close>

definition declared_Expanded :: "widget option list \<Rightarrow> bool" where
  "declared_Expanded children = list_ex isinstance_Expanded (not_None children)"

text \<open>
  The text of a table cell and of a column header as the description of the table has
  them, for a row, column or header index that is not negative.
\<close>

definition cell_text :: "pyval list list \<Rightarrow> int \<Rightarrow> int \<Rightarrow> string" where
  "cell_text data row col =
     (if row < int (length data) \<and> col < int (length (data ! nat row))
      then py_str (data ! nat row ! nat col) else '''')"

definition header_text :: "pyval list \<Rightarrow> int \<Rightarrow> string" where
  "header_text headers i =
     (if i < int (length headers) then py_str (headers ! nat i) else str_int (i + 1))"

text \<open>
  Two properties of a printing function such as \<open>repr\<close> on strings, which encloses
  its argument in quotes and escapes the quotes inside: what it prints can be read back
  from the front of any text that starts with it, and it never starts with a comma or a
  closing bracket.
\<close>

definition prefix_code :: "('a \<Rightarrow> string) \<Rightarrow> bool" where
  "prefix_code R = (\<forall>x y r r'. R x @ r = R y @ r' \<longrightarrow> x = y \<and> r = r')"

definition starts_outside :: "('a \<Rightarrow> string) \<Rightarrow> bool" where
  "starts_outside R = (\<forall>x. R x \<noteq> [] \<and> hd (R x) \<noteq> CHR '','' \<and> hd (R x) \<noteq> CHR '']'')"

text \<open>
  A printing function of that kind: the string between single quotes, with a backslash
  before every single quote and every backslash in it.
\<close>

definition escape :: "char \<Rightarrow> string" where
  "escape c = (if c = quote \<or> c = CHR 0x5C then [CHR 0x5C, c] else [c])"

definition quoted :: "string \<Rightarrow> string" where
  "quoted s = quote # concat (map escape s) @ [quote]"

text \<open>
  A string hash without collisions, for the statements that take the best case of the
  interpreter's hash, and builtins that use it, with \<open>quoted\<close> for \<open>repr\<close> on strings.
\<close>

definition ideal_hash :: "string \<Rightarrow> int" where
  "ideal_hash s = int (list_encode (map of_char s))"

definition example_builtins :: builtins where
  "example_builtins = \<lparr>py_hash = ideal_hash, py_repr_str = quoted\<rparr>"

text \<open>
  The string that \<open>build\<close> hands to \<open>hash\<close>, as a function of the widget's description
  alone: of the values that the \<open>build\<close> of its class formats and, for a composite, of
  the hashes of its children; for a \<open>Column\<close> or \<open>Row\<close>, of the hash of the box it
  constructs from the declared children. It reads neither the key, nor the context, nor
  the hash stored before, nor \<open>_child\<close>. The hash of the description is the hash of
  that string.
\<close>

definition box_string :: "int list \<Rightarrow> string" where
  "box_string hs = ''AxisAlignedBox(children=['' @ join '','' (map str_int hs) @ ''])''"

definition spacer_hash :: "builtins \<Rightarrow> int" where
  "spacer_hash B =
     py_hash B (''Expanded(child='' @ str_int (py_hash B (''Text(text='' @ '''' @ '')''))
                  @ '',flex='' @ str_int 1 @ '')'')"

definition with_spacers :: "'a \<Rightarrow> bool \<Rightarrow> alignment \<Rightarrow> 'a list \<Rightarrow> 'a list" where
  "with_spacers s has_expanded al xs =
     (if \<not> has_expanded \<and> (al = Alignment_center \<or> al = Alignment_end) then [s] else [])
     @ xs
     @ (if \<not> has_expanded \<and> (al = Alignment_start \<or> al = Alignment_center) then [s] else [])"

fun hashed_string :: "builtins \<Rightarrow> widget \<Rightarrow> string" where
  "hashed_string B (Text b text) = ''Text(text='' @ text @ '')''"
| "hashed_string B (LabelButton b label tooltip ontap) =
     ''LabelButton(label='' @ label @ '',tooltip='' @ tooltip
       @ '',onTap='' @ str_type ontap @ '')''"
| "hashed_string B (TextField b placeholder val onchanged hidden) =
     ''TextField(placeholder='' @ placeholder @ '',hidden='' @ str_bool hidden
       @ '',onChanged='' @ str_type onchanged @ '')''"
| "hashed_string B (Expanded b child flex) =
     ''Expanded(child='' @ str_int (py_hash B (hashed_string B child)) @ '',flex=''
       @ str_int flex @ '')''"
| "hashed_string B (AxisAlignedBox b children vertical) =
     box_string (map (\<lambda>child. py_hash B (hashed_string B child)) children)"
| "hashed_string B (Column b children al ch) =
     ''Column(''
       @ str_int (py_hash B (box_string
            (with_spacers (spacer_hash B) (declared_Expanded children) al
               (not_None (map (map_option (\<lambda>child. py_hash B (hashed_string B child)))
                            children)))))
       @ '')''"
| "hashed_string B (Row b children al ch) =
     ''Row(''
       @ str_int (py_hash B (box_string
            (with_spacers (spacer_hash B) (declared_Expanded children) al
               (not_None (map (map_option (\<lambda>child. py_hash B (hashed_string B child)))
                            children)))))
       @ '')''"
| "hashed_string B (TableView b rows cols headers data onselected onchanged) =
     ''TableView(rows='' @ str_int rows @ '',columns='' @ str_int cols
       @ '',data='' @ str_data B data @ '')''"
| "hashed_string B (DropdownList b items index onchanged) =
     ''DropdownList(items='' @ join '','' (map (\<lambda>i. str_int (py_hash B i)) items) @ '')''"

definition fingerprint :: "builtins \<Rightarrow> widget \<Rightarrow> int" where
  "fingerprint B w = py_hash B (hashed_string B w)"

text \<open>
  The hashes of the children that the box of a \<open>Column\<close> or \<open>Row\<close> stores: those of the
  declared children that are not \<open>None\<close>, between those of the spacers, if any.
\<close>

definition stored_hashes :: "builtins \<Rightarrow> widget option list \<Rightarrow> alignment \<Rightarrow> int list" where
  "stored_hashes B children al =
     with_spacers (spacer_hash B) (declared_Expanded children) al
       (map (fingerprint B) (not_None children))"

text \<open>The value of a string of decimal digits.\<close>

definition digit_val :: "char \<Rightarrow> nat" where
  "digit_val c = of_char c - 48"

definition digits_val :: "string \<Rightarrow> nat" where
  "digits_val s = foldl (\<lambda>a c. 10 * a + digit_val c) 0 s"

section \<open>Key equality\<close>

lemma py_eq_refl: "py_eq v v"
  by (cases v) simp_all

lemma UniqueKeys_eq:
  "UniqueKeys gen s c = (map (\<lambda>i. UniqueKey (gen (s + i))) [0..<c], s + c)"
proof (induction c arbitrary: s)
  case 0
  then show ?case by simp
next
  case (Suc c)
  have "map (\<lambda>i. UniqueKey (gen (s + i))) [0..<Suc c]
          = UniqueKey (gen s) # map (\<lambda>i. UniqueKey (gen (Suc s + i))) [0..<c]"
    by (simp only: upt_conv_Cons [of 0 "Suc c"] map_Suc_upt [symmetric])
       (simp add: comp_def)
  with Suc show ?case
    by (simp add: UniqueKey_init_def)
qed

lemma key_eq_operator_Key: "key_eq_operator Key other \<longleftrightarrow> other = Key"
  by (cases other) (simp_all add: Key_eq_def)

lemma key_eq_operator_ValueKey:
  "key_eq_operator (ValueKey v) other \<longleftrightarrow> (\<exists>w. other = ValueKey w \<and> py_eq v w)"
  by (cases other) simp_all

lemma key_eq_operator_UniqueKey:
  "key_eq_operator (UniqueKey u) other \<longleftrightarrow> other = UniqueKey u"
  by (cases other) auto

lemma UniqueKeys_compare:
  assumes "i < c" "j < c"
  shows "key_eq_operator (fst (UniqueKeys gen s c) ! i) (fst (UniqueKeys gen s c) ! j)
           \<longleftrightarrow> gen (s + i) = gen (s + j)"
  using assms by (auto simp: UniqueKeys_eq key_eq_operator_UniqueKey)

text \<open>
  C7, as the claim states it, fails. Compared with \<open>==\<close>, the comparator the class
  names, a basic key is not equal to a \<open>ValueKey\<close> nor to a \<open>UniqueKey\<close>: the subclass is
  asked first and rejects a key of another class. And two \<open>UniqueKey\<close> instances,
  constructed one after the other, are equal when \<open>uuid4\<close> returns the same token twice.
\<close>

theorem C7_Key_unequal_to_subclass_keys:
  "\<not> key_eq_operator Key (ValueKey (PInt 1))
   \<and> \<not> key_eq_operator Key (UniqueKey 0)
   \<and> key_eq_operator (fst (UniqueKeys repeating_uuid4 0 2) ! 0)
       (fst (UniqueKeys repeating_uuid4 0 2) ! 1)"
  by (simp add: UniqueKeys_eq repeating_uuid4_def upt_conv_Cons)

text \<open>
  C7, amended. The method \<open>__eq__\<close> of the basic key answers true for every key, and
  compared with \<open>==\<close> a basic key is equal to the basic keys and to no other key. A
  \<open>ValueKey\<close> is equal, by its method and with \<open>==\<close>, to exactly the \<open>ValueKey\<close>s whose
  value is equal to its own. A \<open>UniqueKey\<close> is equal to exactly the keys that hold its
  own token, so it is equal to itself and to no key of another class; among the
  instances constructed one after another, two are equal exactly when \<open>uuid4\<close> returned
  the same token to both, so no two distinct instances are equal when \<open>uuid4\<close> never
  returns a token twice.
\<close>

theorem C7_key_comparison:
  "key_eq Key other
   \<and> (key_eq_operator Key other \<longleftrightarrow> other = Key)
   \<and> (key_eq (ValueKey v) other \<longleftrightarrow> (\<exists>w. other = ValueKey w \<and> py_eq v w))
   \<and> (key_eq_operator (ValueKey v) other \<longleftrightarrow> (\<exists>w. other = ValueKey w \<and> py_eq v w))
   \<and> (key_eq (UniqueKey u) other \<longleftrightarrow> other = UniqueKey u)
   \<and> (key_eq_operator (UniqueKey u) other \<longleftrightarrow> other = UniqueKey u)
   \<and> key_eq_operator (UniqueKey u) (UniqueKey u)
   \<and> (i < c \<and> j < c \<longrightarrow>
        (key_eq_operator (fst (UniqueKeys gen s c) ! i) (fst (UniqueKeys gen s c) ! j)
           \<longleftrightarrow> gen (s + i) = gen (s + j)))
   \<and> (inj gen \<and> i < c \<and> j < c \<and> i \<noteq> j \<longrightarrow>
        \<not> key_eq_operator (fst (UniqueKeys gen s c) ! i) (fst (UniqueKeys gen s c) ! j))
   \<and> snd (UniqueKeys gen s c) = s + c
   \<and> key_eq_operator (ValueKey (PInt 1)) (ValueKey (PInt 1))
   \<and> \<not> key_eq_operator (ValueKey (PInt 1)) (ValueKey (PInt 2))"
proof (intro conjI impI)
  show "key_eq Key other" by (simp add: Key_eq_def)
  show "key_eq_operator Key other \<longleftrightarrow> other = Key" by (rule key_eq_operator_Key)
  show "key_eq (ValueKey v) other \<longleftrightarrow> (\<exists>w. other = ValueKey w \<and> py_eq v w)"
    by (cases other) simp_all
  show "key_eq_operator (ValueKey v) other \<longleftrightarrow> (\<exists>w. other = ValueKey w \<and> py_eq v w)"
    by (rule key_eq_operator_ValueKey)
  show "key_eq (UniqueKey u) other \<longleftrightarrow> other = UniqueKey u"
    by (cases other) auto
  show "key_eq_operator (UniqueKey u) other \<longleftrightarrow> other = UniqueKey u"
    by (rule key_eq_operator_UniqueKey)
  show "key_eq_operator (UniqueKey u) (UniqueKey u)" by simp
  show "key_eq_operator (fst (UniqueKeys gen s c) ! i) (fst (UniqueKeys gen s c) ! j)
          \<longleftrightarrow> gen (s + i) = gen (s + j)" if "i < c \<and> j < c"
    using that by (simp add: UniqueKeys_compare)
  show "\<not> key_eq_operator (fst (UniqueKeys gen s c) ! i) (fst (UniqueKeys gen s c) ! j)"
    if "inj gen \<and> i < c \<and> j < c \<and> i \<noteq> j"
    using that by (simp add: UniqueKeys_compare inj_eq)
  show "snd (UniqueKeys gen s c) = s + c" by (simp add: UniqueKeys_eq)
  show "key_eq_operator (ValueKey (PInt 1)) (ValueKey (PInt 1))" by simp
  show "\<not> key_eq_operator (ValueKey (PInt 1)) (ValueKey (PInt 2))" by simp
qed

theorem C7_key_comparison_witness:
  "inj (id :: nat \<Rightarrow> nat) \<and> (0::nat) < 2 \<and> (1::nat) < 2 \<and> (0::nat) \<noteq> 1
   \<and> \<not> key_eq_operator (fst (UniqueKeys id 0 2) ! 0) (fst (UniqueKeys id 0 2) ! 1)
   \<and> key_eq_operator (fst (UniqueKeys id 0 2) ! 1) (fst (UniqueKeys id 0 2) ! 1)"
proof -
  have h: "inj (id :: nat \<Rightarrow> nat) \<and> (0::nat) < 2 \<and> (1::nat) < 2 \<and> (0::nat) \<noteq> 1"
    by simp
  note T = C7_key_comparison [where gen = id and s = 0 and c = 2]
  from T [where i = 0 and j = 1] h
  have a: "\<not> key_eq_operator (fst (UniqueKeys id 0 2) ! 0) (fst (UniqueKeys id 0 2) ! 1)"
    by blast
  from T [where i = 1 and j = 1]
  have b: "key_eq_operator (fst (UniqueKeys id 0 2) ! 1) (fst (UniqueKeys id 0 2) ! 1)"
    by simp
  from h a b show ?thesis by blast
qed

section \<open>The constructors of the layout widgets\<close>

lemma stat_expanded_eq:
  "stat_expanded acc children = (acc \<or> declared_Expanded children)"
  by (induction children arbitrary: acc)
     (auto simp: declared_Expanded_def not_None_def split: option.splits)

lemma add_children_eq: "add_children acc children = acc @ not_None children"
  by (induction children arbitrary: acc) (auto simp: not_None_def split: option.splits)

lemma AxisAlignedBox_init_eq:
  "AxisAlignedBox_init k children vertical al =
     Inr (AxisAlignedBox (Widget_init k)
            ((if \<not> declared_Expanded children \<and> (al = Alignment_center \<or> al = Alignment_end)
              then [spacer] else [])
             @ not_None children
             @ (if \<not> declared_Expanded children \<and> (al = Alignment_start \<or> al = Alignment_center)
                then [spacer] else []))
            vertical)"
  by (simp add: AxisAlignedBox_init_def Let_def fake_alignment_eq stat_expanded_eq
      add_children_eq spacer_def)

lemma set_stretches_enumerate:
  "length layout = n + length fl \<Longrightarrow>
   set_stretches (enumerate n fl) layout
     = (if list_all in_c_int fl
        then Inr (take n layout @ zip (map fst (drop n layout)) fl)
        else Inl (overflowed 2))"
proof (induction fl arbitrary: n layout)
  case Nil
  then show ?case by simp
next
  case (Cons f fl)
  from Cons.prems have n: "n < length layout" by simp
  show ?case
  proof (cases "in_c_int f")
    case False
    then show ?thesis by (simp add: setStretch_def c_int_def)
  next
    case True
    let ?l = "layout[n := (fst (layout ! n), f)]"
    have "set_stretches (enumerate n (f # fl)) layout
            = set_stretches (enumerate (Suc n) fl) ?l"
      using n True by (simp add: setStretch_def c_int_def)
    also have "\<dots> = (if list_all in_c_int fl
                     then Inr (take (Suc n) ?l @ zip (map fst (drop (Suc n) ?l)) fl)
                     else Inl (overflowed 2))"
      using Cons.prems by (intro Cons.IH) simp
    also have "take (Suc n) ?l = take n layout @ [(fst (layout ! n), f)]"
      using n by (simp add: take_Suc_conv_app_nth)
    also have "drop (Suc n) ?l = drop (Suc n) layout" by simp
    finally show ?thesis
      using n True by (simp add: Cons_nth_drop_Suc [symmetric])
  qed
qed

lemma paint_children_eq:
  "paint_children cs layout flexes = Inr (layout', flexes') \<Longrightarrow>
   \<exists>ws. map paintWidget cs = map Inr ws
        \<and> layout' = layout @ map (\<lambda>w. (w, 0)) ws
        \<and> flexes' = flexes @ map child_flex cs"
proof (induction cs arbitrary: layout flexes)
  case Nil
  then show ?case by simp
next
  case (Cons c cs)
  from Cons.prems obtain w where w: "paintWidget c = Inr w"
    by (cases "paintWidget c") auto
  with Cons.prems have
    "paint_children cs (layout @ [(w, 0)]) (flexes @ [child_flex c]) = Inr (layout', flexes')"
    by simp
  from Cons.IH [OF this] obtain ws where
    "map paintWidget cs = map Inr ws"
    "layout' = (layout @ [(w, 0)]) @ map (\<lambda>w. (w, 0)) ws"
    "flexes' = (flexes @ [child_flex c]) @ map child_flex cs"
    by blast
  with w show ?case
    by (intro exI [of _ "w # ws"]) simp
qed

lemma paint_children_Inr:
  "map paintWidget cs = map Inr ws \<Longrightarrow>
   paint_children cs layout flexes
     = Inr (layout @ map (\<lambda>w. (w, 0)) ws, flexes @ map child_flex cs)"
proof (induction cs arbitrary: ws layout flexes)
  case Nil
  then show ?case by simp
next
  case (Cons c cs)
  then obtain w ws' where "ws = w # ws'" "paintWidget c = Inr w"
    "map paintWidget cs = map Inr ws'"
    by (cases ws) auto
  with Cons.IH [of ws'] show ?case by simp
qed

lemma paint_box_outcome:
  assumes "map paintWidget cs = map Inr ws"
  shows "paintWidget (AxisAlignedBox b cs v)
           = (if list_all in_c_int (map child_flex cs)
              then Inr (QWidget v (zip ws (map child_flex cs)))
              else Inl (overflowed 2))"
proof -
  from assms have len: "length ws = length cs"
    by (metis length_map)
  have "set_stretches (enumerate 0 (map child_flex cs)) (map (\<lambda>w. (w, 0)) ws)
          = (if list_all in_c_int (map child_flex cs)
             then Inr (zip ws (map child_flex cs)) else Inl (overflowed 2))"
    using len by (simp add: set_stretches_enumerate comp_def)
  then show ?thesis
    by (simp add: paint_children_Inr [OF assms])
qed

lemma paint_box_slots:
  assumes "map paintWidget cs = map Inr ws" and "list_all in_c_int (map child_flex cs)"
  shows "paintWidget (AxisAlignedBox b cs v) = Inr (QWidget v (zip ws (map child_flex cs)))"
  using paint_box_outcome [OF assms(1), of b v] assms(2) by simp

lemma paint_box_cases:
  "paintWidget (AxisAlignedBox b cs v) = Inr q \<Longrightarrow>
   \<exists>ws. map paintWidget cs = map Inr ws \<and> q = QWidget v (zip ws (map child_flex cs))"
proof -
  assume a: "paintWidget (AxisAlignedBox b cs v) = Inr q"
  then obtain layout flexes where p: "paint_children cs [] [] = Inr (layout, flexes)"
    by (auto split: sum.splits)
  from paint_children_eq [OF p] obtain ws where ws: "map paintWidget cs = map Inr ws" by blast
  from a paint_box_outcome [OF ws, of b v] show ?thesis
    using ws by (auto split: if_splits)
qed

text \<open>
  C5: constructing an \<open>Expanded\<close> raises exactly when the child is \<open>None\<close> or the flex
  is not an integer greater than 0; so it raises without a child, it raises for flex 0,
  and for flex 1 it returns the widget, whatever the child.
\<close>

theorem C5_Expanded_init:
  "isl (Expanded_init k child flex)
     = (child = None \<or> \<not> (\<exists>n. py_as_int flex = Some n \<and> 0 < n))
   \<and> isl (Expanded_init k None flex)
   \<and> isl (Expanded_init k (Some X) (PInt 0))
   \<and> Expanded_init k (Some X) (PInt 1) = Inr (Expanded (Widget_init k) X 1)"
  by (auto simp: Expanded_init_def split: option.splits)

lemma spacers_no_Expanded:
  assumes "\<not> declared_Expanded children"
  shows "AxisAlignedBox_init k children vertical Alignment_none
           = Inr (AxisAlignedBox (Widget_init k) (not_None children) vertical)"
    and "AxisAlignedBox_init k children vertical Alignment_start
           = Inr (AxisAlignedBox (Widget_init k) (not_None children @ [spacer]) vertical)"
    and "AxisAlignedBox_init k children vertical Alignment_center
           = Inr (AxisAlignedBox (Widget_init k) ([spacer] @ not_None children @ [spacer])
                    vertical)"
    and "AxisAlignedBox_init k children vertical Alignment_end
           = Inr (AxisAlignedBox (Widget_init k) ([spacer] @ not_None children) vertical)"
  using assms by (simp_all add: AxisAlignedBox_init_eq)

lemma spacers_with_Expanded:
  "declared_Expanded children \<Longrightarrow>
   AxisAlignedBox_init k children vertical al
     = Inr (AxisAlignedBox (Widget_init k) (not_None children) vertical)"
  by (simp add: AxisAlignedBox_init_eq)

lemma child_flex_cases:
  "child_flex (Expanded b c n) = n" "\<not> isinstance_Expanded w \<Longrightarrow> child_flex w = 0"
  by (cases w; simp)+

lemma paint_spacer: "paintWidget spacer = Inr (QLabel '''')"
  by (simp add: spacer_def)

lemma paint_center_example:
  assumes "\<not> isinstance_Expanded A" "\<not> isinstance_Expanded B"
    and "paintWidget A = Inr a" "paintWidget B = Inr b"
  shows "\<exists>box. AxisAlignedBox_init k [Some A, Some B] v Alignment_center = Inr box
           \<and> paintWidget box
               = Inr (QWidget v [(QLabel '''', 1), (a, 0), (b, 0), (QLabel '''', 1)])"
proof -
  have d: "\<not> declared_Expanded [Some A, Some B]"
    using assms by (simp add: declared_Expanded_def not_None_def)
  have p: "map paintWidget [spacer, A, B, spacer] = map Inr [QLabel '''', a, b, QLabel '''']"
    using assms by (simp add: paint_spacer)
  have f: "map child_flex [spacer, A, B, spacer] = [1, 0, 0, 1]"
    using assms by (simp add: child_flex_cases spacer_def)
  have r: "list_all in_c_int (map child_flex [spacer, A, B, spacer])"
    unfolding f by (simp add: in_c_int_def)
  show ?thesis
    using spacers_no_Expanded(3) [OF d, of k v]
      paint_box_slots [OF p r, of "Widget_init k" v] f
    by (simp add: not_None_def)
qed

lemma paint_start_example:
  assumes "paintWidget A = Inr a"
  shows "\<exists>box. AxisAlignedBox_init k [Some (Expanded bx A 2)] v Alignment_start = Inr box
           \<and> paintWidget box = Inr (QWidget v [(a, 2)])"
proof -
  have d: "declared_Expanded [Some (Expanded bx A 2)]"
    by (simp add: declared_Expanded_def not_None_def)
  have p: "map paintWidget [Expanded bx A 2] = map Inr [a]"
    using assms by simp
  have r: "list_all in_c_int (map child_flex [Expanded bx A 2])"
    by (simp add: in_c_int_def)
  show ?thesis
    using spacers_with_Expanded [OF d, of k v Alignment_start]
      paint_box_slots [OF p r, of "Widget_init k" v]
    by (simp add: not_None_def)
qed

text \<open>
  C3: when no declared child is an \<open>Expanded\<close>, the stored children are the declared ones
  with no spacer for alignment none, one spacer after for start, one before and one after
  for center, one before for end; when a declared child is an \<open>Expanded\<close>, no spacer is
  added for any alignment. A painted box has one slot per stored child, in order, holding
  the child's painted element with stretch the child's flex if the child is an
  \<open>Expanded\<close> and 0 otherwise. A box of two children that are not \<open>Expanded\<close>, aligned
  center, paints the four slots spacer, A, B, spacer with stretches 1, 0, 0, 1, and a box
  of the single child \<open>Expanded(A, flex=2)\<close>, aligned start, paints one slot of stretch 2.
\<close>

theorem C3_alignment_spacers_and_stretch:
  "(\<not> declared_Expanded children \<longrightarrow>
      AxisAlignedBox_init k children vertical Alignment_none
        = Inr (AxisAlignedBox (Widget_init k) (not_None children) vertical)
      \<and> AxisAlignedBox_init k children vertical Alignment_start
        = Inr (AxisAlignedBox (Widget_init k) (not_None children @ [spacer]) vertical)
      \<and> AxisAlignedBox_init k children vertical Alignment_center
        = Inr (AxisAlignedBox (Widget_init k) ([spacer] @ not_None children @ [spacer])
                 vertical)
      \<and> AxisAlignedBox_init k children vertical Alignment_end
        = Inr (AxisAlignedBox (Widget_init k) ([spacer] @ not_None children) vertical))
   \<and> (declared_Expanded children \<longrightarrow>
        AxisAlignedBox_init k children vertical al
          = Inr (AxisAlignedBox (Widget_init k) (not_None children) vertical))
   \<and> (paintWidget (AxisAlignedBox b cs v) = Inr q \<longrightarrow>
        (\<exists>ws. map paintWidget cs = map Inr ws \<and> q = QWidget v (zip ws (map child_flex cs))))
   \<and> child_flex (Expanded b' c n) = n
   \<and> (\<not> isinstance_Expanded w \<longrightarrow> child_flex w = 0)
   \<and> (\<not> isinstance_Expanded A \<and> \<not> isinstance_Expanded B
        \<and> paintWidget A = Inr pa \<and> paintWidget B = Inr pb \<longrightarrow>
        (\<exists>box. AxisAlignedBox_init k [Some A, Some B] v Alignment_center = Inr box
           \<and> paintWidget box
               = Inr (QWidget v [(QLabel '''', 1), (pa, 0), (pb, 0), (QLabel '''', 1)])))
   \<and> (paintWidget A = Inr pa \<longrightarrow>
        (\<exists>box. AxisAlignedBox_init k [Some (Expanded b' A 2)] v Alignment_start = Inr box
           \<and> paintWidget box = Inr (QWidget v [(pa, 2)])))"
proof (intro conjI impI)
  assume "paintWidget (AxisAlignedBox b cs v) = Inr q"
  then show "\<exists>ws. map paintWidget cs = map Inr ws \<and> q = QWidget v (zip ws (map child_flex cs))"
    by (rule paint_box_cases)
next
  assume "\<not> isinstance_Expanded A \<and> \<not> isinstance_Expanded B
          \<and> paintWidget A = Inr pa \<and> paintWidget B = Inr pb"
  then show "\<exists>box. AxisAlignedBox_init k [Some A, Some B] v Alignment_center = Inr box
           \<and> paintWidget box
               = Inr (QWidget v [(QLabel '''', 1), (pa, 0), (pb, 0), (QLabel '''', 1)])"
    by (intro paint_center_example) simp_all
next
  assume "paintWidget A = Inr pa"
  then show "\<exists>box. AxisAlignedBox_init k [Some (Expanded b' A 2)] v Alignment_start = Inr box
           \<and> paintWidget box = Inr (QWidget v [(pa, 2)])"
    by (rule paint_start_example)
qed (simp_all add: spacers_no_Expanded spacers_with_Expanded child_flex_cases)

theorem C3_alignment_spacers_and_stretch_witness:
  "\<not> declared_Expanded [Some (Text_init (Some ''A'') Key), None, Some (Text_init (Some ''B'') Key)]
   \<and> AxisAlignedBox_init Key
        [Some (Text_init (Some ''A'') Key), None, Some (Text_init (Some ''B'') Key)]
        True Alignment_end
       = Inr (AxisAlignedBox (Widget_init Key)
                [spacer, Text_init (Some ''A'') Key, Text_init (Some ''B'') Key] True)
   \<and> declared_Expanded [Some (Expanded (Widget_init Key) (Text_init (Some ''A'') Key) 2)]
   \<and> AxisAlignedBox_init Key [Some (Expanded (Widget_init Key) (Text_init (Some ''A'') Key) 2)]
        True Alignment_center
       = Inr (AxisAlignedBox (Widget_init Key)
                [Expanded (Widget_init Key) (Text_init (Some ''A'') Key) 2] True)
   \<and> paintWidget (AxisAlignedBox (Widget_init Key)
        [Text_init (Some ''A'') Key, Expanded (Widget_init Key) (Text_init (Some ''B'') Key) 3]
        False)
       = Inr (QWidget False [(QLabel ''A'', 0), (QLabel ''B'', 3)])
   \<and> (\<exists>box. AxisAlignedBox_init Key
               [Some (Text_init (Some ''A'') Key), Some (Text_init (Some ''B'') Key)]
               True Alignment_center = Inr box
         \<and> paintWidget box
             = Inr (QWidget True
                      [(QLabel '''', 1), (QLabel ''A'', 0), (QLabel ''B'', 0), (QLabel '''', 1)]))
   \<and> (\<exists>box. AxisAlignedBox_init Key
               [Some (Expanded (Widget_init Key) (Text_init (Some ''A'') Key) 2)]
               True Alignment_start = Inr box
         \<and> paintWidget box = Inr (QWidget True [(QLabel ''A'', 2)]))"
  using C3_alignment_spacers_and_stretch
    [where children = "[Some (Text_init (Some ''A'') Key), None, Some (Text_init (Some ''B'') Key)]"
       and k = Key and vertical = True and v = True
       and A = "Text_init (Some ''A'') Key" and B = "Text_init (Some ''B'') Key"
       and pa = "QLabel ''A''" and pb = "QLabel ''B''" and b' = "Widget_init Key"]
    C3_alignment_spacers_and_stretch
    [where children = "[Some (Expanded (Widget_init Key) (Text_init (Some ''A'') Key) 2)]"
       and k = Key and vertical = True and al = Alignment_center
       and b = "Widget_init Key" and v = False
       and cs = "[Text_init (Some ''A'') Key,
                  Expanded (Widget_init Key) (Text_init (Some ''B'') Key) 3]"
       and q = "QWidget False [(QLabel ''A'', 0), (QLabel ''B'', 3)]"]
  by (simp add: declared_Expanded_def not_None_def Text_init_def setStretch_def
      enumerate_eq_zip c_int_def in_c_int_def)

text \<open>
  C10: for every declared child list, the constructor of the box returns a box and never
  raises; the stored children are the entries that are not \<open>None\<close>, in their order,
  between the spacers, if any; the loop that looks for an \<open>Expanded\<close> sees the entries
  that are not \<open>None\<close> only; and the \<open>None\<close> entries have no effect on the result.
\<close>

theorem C10_None_children_dropped:
  "(\<exists>before after.
      AxisAlignedBox_init k children vertical al
        = Inr (AxisAlignedBox (Widget_init k) (before @ not_None children @ after) vertical)
      \<and> set before \<subseteq> {spacer} \<and> set after \<subseteq> {spacer})
   \<and> stat_expanded False children = list_ex isinstance_Expanded (not_None children)
   \<and> AxisAlignedBox_init k (filter (\<lambda>c. c \<noteq> None) children) vertical al
       = AxisAlignedBox_init k children vertical al"
proof (intro conjI)
  show "\<exists>before after.
      AxisAlignedBox_init k children vertical al
        = Inr (AxisAlignedBox (Widget_init k) (before @ not_None children @ after) vertical)
      \<and> set before \<subseteq> {spacer} \<and> set after \<subseteq> {spacer}"
    unfolding AxisAlignedBox_init_eq
    by (intro exI conjI) (rule refl, auto)
  show "stat_expanded False children = list_ex isinstance_Expanded (not_None children)"
    by (simp add: stat_expanded_eq declared_Expanded_def)
  show "AxisAlignedBox_init k (filter (\<lambda>c. c \<noteq> None) children) vertical al
       = AxisAlignedBox_init k children vertical al"
    by (simp add: AxisAlignedBox_init_eq declared_Expanded_def not_None_def)
qed

section \<open>Painting a table\<close>

lemma py_index_nonneg:
  "0 \<le> i \<Longrightarrow> i < int (length xs) \<Longrightarrow> py_index xs i = Inr (xs ! nat i)"
  by (simp add: py_index_def)

lemma getdataitem_nonneg:
  "0 \<le> row \<Longrightarrow> 0 \<le> col \<Longrightarrow>
   TableView_getdataitem data row col = Inr (cell_text data row col)"
  by (simp add: TableView_getdataitem_def cell_text_def py_index_nonneg)

lemma set_py_range: "set (py_range n) = {i. 0 \<le> i \<and> i < n}"
proof -
  have "i \<in> int ` {0..<nat n} \<longleftrightarrow> 0 \<le> i \<and> i < n" for i
  proof
    assume "i \<in> int ` {0..<nat n}"
    then show "0 \<le> i \<and> i < n" by auto
  next
    assume "0 \<le> i \<and> i < n"
    then have "nat i \<in> {0..<nat n}" "i = int (nat i)" by auto
    then show "i \<in> int ` {0..<nat n}" by (rule_tac image_eqI)
  qed
  then show ?thesis by (auto simp: py_range_def)
qed

lemma paint_row_eq:
  "0 \<le> row \<Longrightarrow> \<forall>c\<in>set cols. 0 \<le> c \<Longrightarrow>
   paint_row data row cols items
     = Inr (\<lambda>(r, c). if r = row \<and> c \<in> set cols then Some (cell_text data r c)
                     else items (r, c))"
proof (induction cols arbitrary: items)
  case Nil
  then show ?case by simp
next
  case (Cons col cols)
  then show ?case
    by (simp add: getdataitem_nonneg fun_eq_iff)
qed

lemma paint_rows_eq:
  "\<forall>r\<in>set rows. 0 \<le> r \<Longrightarrow> \<forall>c\<in>set cols. 0 \<le> c \<Longrightarrow>
   paint_rows data rows cols items
     = Inr (\<lambda>(r, c). if r \<in> set rows \<and> c \<in> set cols then Some (cell_text data r c)
                     else items (r, c))"
proof (induction rows arbitrary: items)
  case Nil
  then show ?case by simp
next
  case (Cons row rows)
  then show ?case
    by (simp add: paint_row_eq fun_eq_iff)
qed

lemma paint_headers_eq:
  "\<forall>i\<in>set is. 0 \<le> i \<Longrightarrow>
   paint_headers headers is heads
     = Inr (\<lambda>i. if i \<in> set is then Some (header_text headers i) else heads i)"
proof (induction "is" arbitrary: heads)
  case Nil
  then show ?case by simp
next
  case (Cons i rest)
  then show ?case
    by (auto simp: py_index_nonneg header_text_def fun_eq_iff)
qed

lemma TableView_paintWidget_eq:
  "TableView_paintWidget rows cols headers data s f =
   (if in_c_int rows \<and> in_c_int cols
    then Inr (QTableWidget rows cols
                (\<lambda>(r, c). if 0 \<le> r \<and> r < rows \<and> 0 \<le> c \<and> c < cols
                           then Some (cell_text data r c) else None)
                (\<lambda>i. if 0 \<le> i \<and> i < cols then Some (header_text headers i) else None)
                s f)
    else Inl (overflowed 1))"
  by (simp add: TableView_paintWidget_def c_int_def paint_rows_eq paint_headers_eq
      set_py_range)

text \<open>
  C6: the lookup of a cell never raises for a row and a column that are not negative,
  and gives \<open>str(data[row][col])\<close> when the data has that row and the row has that
  column, and the empty string otherwise. Painting a table raises only when the row
  count or the column count does not fit the toolkit's C \<open>int\<close>, at \<open>setRowCount\<close> or
  \<open>setColumnCount\<close>, before any cell is painted; otherwise it returns the table, in
  which the item at cell (row, col), for every row below \<open>rows\<close> and column below
  \<open>columns\<close>, is that text, and the header item of column \<open>i\<close> is \<open>str(headers[i])\<close>, which
  is \<open>headers[i]\<close> itself for a string, when the headers reach that far, and
  \<open>str(i + 1)\<close> otherwise. For 2 rows, 2 columns and the data \<open>[["a", "b"]]\<close> the four cells
  are "a", "b", "" and "".
\<close>

theorem C6_TableView_cells_and_headers:
  "paintWidget (TableView_init k rows cols headers data s f)
     = (if in_c_int rows \<and> in_c_int cols
        then Inr (QTableWidget rows cols
                    (\<lambda>(r, c). if 0 \<le> r \<and> r < rows \<and> 0 \<le> c \<and> c < cols
                               then Some (cell_text data r c) else None)
                    (\<lambda>i. if 0 \<le> i \<and> i < cols then Some (header_text headers i) else None)
                    s f)
        else Inl (overflowed 1))
   \<and> TableView_getdataitem data (int i) (int j) = Inr (cell_text data (int i) (int j))
   \<and> cell_text data (int i) (int j)
       = (if i < length data \<and> j < length (data ! i) then py_str (data ! i ! j) else '''')
   \<and> header_text headers (int j)
       = (if j < length headers then py_str (headers ! j) else str_int (int j + 1))
   \<and> header_text (map PStr names) (int j)
       = (if j < length names then names ! j else str_int (int j + 1))
   \<and> cell_text [[PStr ''a'', PStr ''b'']] 0 0 = ''a''
   \<and> cell_text [[PStr ''a'', PStr ''b'']] 0 1 = ''b''
   \<and> cell_text [[PStr ''a'', PStr ''b'']] 1 0 = ''''
   \<and> cell_text [[PStr ''a'', PStr ''b'']] 1 1 = ''''"
  by (simp add: TableView_init_def TableView_paintWidget_eq getdataitem_nonneg
      cell_text_def header_text_def)

theorem C6_TableView_cells_and_headers_witness:
  "in_c_int 2
   \<and> (\<exists>items heads.
         paintWidget (TableView_init Key 2 2 [] [[PStr ''a'', PStr ''b'']] None None)
           = Inr (QTableWidget 2 2 items heads None None)
         \<and> items (0, 0) = Some ''a'' \<and> items (0, 1) = Some ''b''
         \<and> items (1, 0) = Some '''' \<and> items (1, 1) = Some ''''
         \<and> items (2, 0) = None \<and> items (0, 2) = None
         \<and> heads 0 = Some ''1'' \<and> heads 1 = Some ''2'' \<and> heads 2 = None)"
proof -
  let ?items = "\<lambda>(r, c). if (0::int) \<le> r \<and> r < 2 \<and> (0::int) \<le> c \<and> c < 2
                         then Some (cell_text [[PStr ''a'', PStr ''b'']] r c) else None"
  let ?heads = "\<lambda>i. if (0::int) \<le> i \<and> i < 2 then Some (header_text [] i) else None"
  have r: "in_c_int 2" by (simp add: in_c_int_def)
  note T = C6_TableView_cells_and_headers
    [where k = Key and rows = 2 and cols = 2 and headers = "[]"
       and data = "[[PStr ''a'', PStr ''b'']]" and s = None and f = None]
  from T r have e:
    "paintWidget (TableView_init Key 2 2 [] [[PStr ''a'', PStr ''b'']] None None)
       = Inr (QTableWidget 2 2 ?items ?heads None None)"
    by simp
  have v: "?items (0, 0) = Some ''a'' \<and> ?items (0, 1) = Some ''b''
         \<and> ?items (1, 0) = Some '''' \<and> ?items (1, 1) = Some ''''
         \<and> ?items (2, 0) = None \<and> ?items (0, 2) = None
         \<and> ?heads 0 = Some ''1'' \<and> ?heads 1 = Some ''2'' \<and> ?heads 2 = None"
    by (simp add: cell_text_def header_text_def str_int_def str_nat.simps digit_char_def)
  have "\<exists>items heads.
         paintWidget (TableView_init Key 2 2 [] [[PStr ''a'', PStr ''b'']] None None)
           = Inr (QTableWidget 2 2 items heads None None)
         \<and> items (0, 0) = Some ''a'' \<and> items (0, 1) = Some ''b''
         \<and> items (1, 0) = Some '''' \<and> items (1, 1) = Some ''''
         \<and> items (2, 0) = None \<and> items (0, 2) = None
         \<and> heads 0 = Some ''1'' \<and> heads 1 = Some ''2'' \<and> heads 2 = None"
    using e v by (intro exI [of _ ?items] exI [of _ ?heads]) (rule conjI)
  with r show ?thesis by (rule conjI)
qed

text \<open>
  Outside the painted range the lookup can raise: a negative row counts from the end of
  the data, and no row is there when the data is empty.
\<close>

lemma getdataitem_negative_row_empty_data:
  "TableView_getdataitem [] (- 1) 0 = Inl (IndexError ''list index out of range'')"
  by (simp add: TableView_getdataitem_def py_index_def)

section \<open>Building and repainting\<close>

lemma build_total:
  "\<exists>w'. build B ctx w = Inr w'"
  "\<exists>ws'. build_children B ctx ws = Inr ws'"
proof (induction B ctx w and B ctx ws rule: build_build_children.induct)
  case (6 B ctx b children al ch)
  obtain box where box: "AxisAlignedBox_init Key children True al = Inr box"
    by (simp add: AxisAlignedBox_init_eq)
  from 6 [OF box] show ?case using box by auto
next
  case (7 B ctx b children al ch)
  obtain box where box: "AxisAlignedBox_init Key children False al = Inr box"
    by (simp add: AxisAlignedBox_init_eq)
  from 7 [OF box] show ?case using box by auto
qed auto

lemma build_context: "build B ctx w = Inr w' \<Longrightarrow> context_of w' = Some ctx"
  by (cases w) (auto simp: context_of_def built_def Widget_build_def split: sum.splits)

lemma Widget_setState_raises:
  "Widget_setState B w app =
     (if context_of w = None then [''attempted setState() on an unbuilt widget''] else [],
      Inl (AttributeError
             (quote # (if context_of w = None then ''NoneType'' else ''BuildContext'')
                @ [quote] @ '' object has no attribute '' @ [quote] @ ''repaint'' @ [quote])))"
  by (simp add: Widget_setState_def BuildContext_methods_def Let_def split: option.splits)

text \<open>
  C1: \<open>Widget.setState\<close> prints the diagnostic exactly when the widget has no context, and
  then raises on the absent context. On a built widget it raises as well: it asks the
  context for \<open>repaint\<close>, and the only method of a build context is \<open>setState\<close>, so the
  repaint entry point of the application is not reached.
\<close>

theorem C1_setState_raises_also_after_build:
  "Widget_setState B w app =
     (if context_of w = None then [''attempted setState() on an unbuilt widget''] else [],
      Inl (AttributeError
             (quote # (if context_of w = None then ''NoneType'' else ''BuildContext'')
                @ [quote] @ '' object has no attribute '' @ [quote] @ ''repaint'' @ [quote])))
   \<and> (\<exists>w'. build B ctx w = Inr w' \<and> context_of w' = Some ctx
          \<and> Widget_setState B w' app =
              ([], Inl (AttributeError
                          (quote # ''BuildContext'' @ [quote] @ '' object has no attribute ''
                             @ [quote] @ ''repaint'' @ [quote]))))
   \<and> BuildContext_methods ''repaint'' = None
   \<and> BuildContext_methods ''setState'' = Some Method_setState"
proof -
  obtain w' where w': "build B ctx w = Inr w'"
    using build_total(1) by blast
  then have "context_of w' = Some ctx" by (rule build_context)
  with w' show ?thesis
    by (simp add: Widget_setState_raises BuildContext_methods_def)
qed

text \<open>
  C8: building a \<open>Column\<close> constructs the box \<open>AxisAlignedBox(children, vertical=True,
  alignment)\<close>, builds that box with the same context and keeps it; painting the built
  \<open>Column\<close> returns the element that painting the built box returns. The same holds for a
  \<open>Row\<close> and the box with \<open>vertical=False\<close>. Of its own, the adapter records the context
  and the hash of its class name around the hash of the box.
\<close>

theorem C8_Column_Row_delegate:
  "(\<exists>box box'.
      AxisAlignedBox_init Key children True al = Inr box
      \<and> build B ctx box = Inr box'
      \<and> build B ctx (Column_init k children al)
          = Inr (Column (built ctx (py_hash B (''Column('' @ str_int (hash_of box') @ '')''))
                           (Widget_init k))
                   children al (Some box'))
      \<and> paintWidget (Column (built ctx (py_hash B (''Column('' @ str_int (hash_of box') @ '')''))
                           (Widget_init k))
                   children al (Some box')) = paintWidget box')
   \<and> (\<exists>box box'.
      AxisAlignedBox_init Key children False al = Inr box
      \<and> build B ctx box = Inr box'
      \<and> build B ctx (Row_init k children al)
          = Inr (Row (built ctx (py_hash B (''Row('' @ str_int (hash_of box') @ '')''))
                        (Widget_init k))
                   children al (Some box'))
      \<and> paintWidget (Row (built ctx (py_hash B (''Row('' @ str_int (hash_of box') @ '')''))
                        (Widget_init k))
                   children al (Some box')) = paintWidget box')"
proof -
  obtain cbox where cbox: "AxisAlignedBox_init Key children True al = Inr cbox"
    by (simp add: AxisAlignedBox_init_eq)
  obtain rbox where rbox: "AxisAlignedBox_init Key children False al = Inr rbox"
    by (simp add: AxisAlignedBox_init_eq)
  obtain cbox' where cbox': "build B ctx cbox = Inr cbox'"
    using build_total(1) by blast
  obtain rbox' where rbox': "build B ctx rbox = Inr rbox'"
    using build_total(1) by blast
  show ?thesis
    using cbox cbox' rbox rbox' by (simp add: Column_init_def Row_init_def)
qed

text \<open>
  C9: painting a \<open>TextField\<close> whose \<open>onChanged\<close> is \<open>None\<close> raises, at the connection of
  \<open>None\<close>; painting a \<open>LabelButton\<close> whose \<open>onTap\<close> is \<open>None\<close> returns the button, with
  nothing connected; and painting a \<open>TextField\<close> returns an element exactly when its
  \<open>onChanged\<close> is not \<open>None\<close>.
\<close>

theorem C9_TextField_needs_onChanged:
  "paintWidget (TextField_init k p v h None)
     = Inl (TypeError (''argument 1 has unexpected type '' @ [quote] @ ''NoneType'' @ [quote]))
   \<and> paintWidget (LabelButton_init k l t None) = Inr (QPushButton l t None)
   \<and> ((\<exists>q. paintWidget (TextField_init k p v h f) = Inr q) \<longleftrightarrow> f \<noteq> None)"
  by (cases f) (simp_all add: TextField_init_def LabelButton_init_def pyqt_connect_def)

section \<open>The application\<close>

lemma run_keeps_running:
  "(case run B app host of Inl e \<Rightarrow> True
    | Inr (app', host') \<Rightarrow> app_running app' = app_running app)"
  by (simp add: run_def split: sum.splits)

lemma Application_setState_keeps_running:
  "(case Application_setState B app of Inl e \<Rightarrow> True
    | Inr app' \<Rightarrow> app_running app' = app_running app)"
  by (simp add: Application_setState_def split: sum.splits option.splits list.splits)

text \<open>
  C4: a new application is not running, and neither \<open>run\<close> nor \<open>setState\<close> changes
  \<open>_running\<close>: no statement assigns it after the constructor. So the guard at the head
  of \<open>run\<close> never holds, and a second \<open>run\<close> is not a no-op: on the application whose
  builder returns a \<open>Text\<close>, it constructs a second \<open>QApplication\<close>, shows a second window
  and enters the event loop again.
\<close>

theorem C4_run_never_sets_running:
  "\<not> app_running (Application_init self context builder title width height)
   \<and> (case run B app host of Inl e \<Rightarrow> True
       | Inr (app', host') \<Rightarrow> app_running app' = app_running app)
   \<and> (let app0 = Application_init 0 None (Some (\<lambda>ctx. Inr (Text_init (Some ''hi'') Key)))
                     ''demo'' None None
        in case run B app0 [] of
             Inl e \<Rightarrow> False
           | Inr (app1, host1) \<Rightarrow>
               \<not> app_running app1
               \<and> host1 = [QApplication_new, QWidget_show, QApplication_exec]
               \<and> (case run B app1 host1 of
                     Inl e \<Rightarrow> False
                   | Inr (app2, host2) \<Rightarrow>
                       \<not> app_running app2 \<and> host2 = host1 @ host1 \<and> app2 \<noteq> app1))"
proof (intro conjI)
  show "\<not> app_running (Application_init self context builder title width height)"
    by (simp add: Application_init_def)
  show "case run B app host of Inl e \<Rightarrow> True
       | Inr (app', host') \<Rightarrow> app_running app' = app_running app"
    by (rule run_keeps_running)
qed (simp add: run_def Application_init_def call_builder_def Text_init_def Let_def
    resize_def)

section \<open>Decimal strings and joins\<close>

lemma digit_cases:
  "d < 10 \<Longrightarrow> d = 0 \<or> d = 1 \<or> d = 2 \<or> d = 3 \<or> d = 4 \<or> d = 5 \<or> d = 6 \<or> d = 7 \<or> d = 8
     \<or> d = (9::nat)"
  by arith

lemma digit_val_digit_char: "d < 10 \<Longrightarrow> digit_val (digit_char d) = d"
  by (drule digit_cases) (auto simp: digit_val_def digit_char_def)

lemma digit_char_not_sep:
  "d < 10 \<Longrightarrow> digit_char d \<noteq> CHR '','' \<and> digit_char d \<noteq> CHR ''-''"
  by (drule digit_cases) (auto simp: digit_char_def)

lemma digits_val_str_nat: "digits_val (str_nat n) = n"
proof (induction n rule: str_nat.induct)
  case (1 n)
  show ?case
  proof (cases "n < 10")
    case True
    then show ?thesis
      by (subst str_nat.simps) (simp add: digits_val_def digit_val_digit_char)
  next
    case False
    with 1 have "digits_val (str_nat (n div 10)) = n div 10" by simp
    with False show ?thesis
      by (subst str_nat.simps) (simp add: digits_val_def digit_val_digit_char)
  qed
qed

lemma str_nat_inj: "str_nat m = str_nat n \<Longrightarrow> m = n"
  by (metis digits_val_str_nat)

lemma str_nat_chars: "c \<in> set (str_nat n) \<Longrightarrow> c \<noteq> CHR '','' \<and> c \<noteq> CHR ''-''"
proof (induction n rule: str_nat.induct)
  case (1 n)
  show ?case
  proof (cases "n < 10")
    case True
    with "1.prems" show ?thesis
      by (subst (asm) str_nat.simps) (simp add: digit_char_not_sep)
  next
    case False
    with "1.prems" have "c \<in> set (str_nat (n div 10)) \<or> c = digit_char (n mod 10)"
      by (subst (asm) str_nat.simps) auto
    with 1 False show ?thesis
      by (auto simp: digit_char_not_sep)
  qed
qed

lemma str_nat_not_Nil: "str_nat n \<noteq> []"
  by (subst str_nat.simps) simp

lemma str_int_inj: "str_int i = str_int j \<longleftrightarrow> i = j"
proof
  assume e: "str_int i = str_int j"
  have neg: False if "a < 0" "\<not> b < 0" "str_int a = str_int b" for a b
  proof -
    from that have "CHR ''-'' \<in> set (str_nat (nat b))"
      by (simp add: str_int_def) (metis list.set_intros(1))
    then show False using str_nat_chars by blast
  qed
  show "i = j"
  proof (cases "i < 0"; cases "j < 0")
    assume "i < 0" "j < 0"
    with e have "nat (- i) = nat (- j)" by (simp add: str_int_def str_nat_inj)
    with \<open>i < 0\<close> \<open>j < 0\<close> show ?thesis by simp
  next
    assume "i < 0" "\<not> j < 0"
    with e neg show ?thesis by blast
  next
    assume "\<not> i < 0" "j < 0"
    with e neg [of j i] show ?thesis by simp
  next
    assume "\<not> i < 0" "\<not> j < 0"
    with e have "nat i = nat j" by (simp add: str_int_def str_nat_inj)
    with \<open>\<not> i < 0\<close> \<open>\<not> j < 0\<close> show ?thesis by simp
  qed
qed simp

lemma str_int_no_comma: "CHR '','' \<notin> set (str_int i)"
  using str_nat_chars by (auto simp: str_int_def)

lemma str_int_not_Nil: "str_int i \<noteq> []"
  by (simp add: str_int_def str_nat_not_Nil)

lemma split_at_sep:
  "c \<notin> set x \<Longrightarrow> c \<notin> set y \<Longrightarrow> x @ c # r = y @ c # r' \<Longrightarrow> x = y \<and> r = r'"
proof (induction x arbitrary: y)
  case Nil
  then show ?case by (cases y) auto
next
  case (Cons a x)
  then show ?case by (cases y) auto
qed

lemma no_sep_eq: "c \<notin> set x \<Longrightarrow> x \<noteq> y @ c # r"
  by auto

lemma join_Cons:
  "join sep (x # xs) = (if xs = [] then x else x @ sep @ join sep xs)"
  by (cases xs) simp_all

lemma join_Nil_iff:
  "\<forall>x\<in>set xs. x \<noteq> [] \<Longrightarrow> join sep xs = [] \<longleftrightarrow> xs = []"
  by (cases xs) (simp_all add: join_Cons)

lemma join_inj:
  assumes "\<forall>x\<in>set xs. x \<noteq> [] \<and> c \<notin> set x" "\<forall>y\<in>set ys. y \<noteq> [] \<and> c \<notin> set y"
    and "join [c] xs = join [c] ys"
  shows "xs = ys"
  using assms
proof (induction xs arbitrary: ys)
  case Nil
  then have "join [c] ys = []" by simp
  moreover from Nil have "\<forall>y\<in>set ys. y \<noteq> []" by simp
  ultimately show ?case by (simp add: join_Nil_iff)
next
  case (Cons x xs)
  note prems = Cons.prems and IH = Cons.IH
  from prems have x: "x \<noteq> []" "c \<notin> set x" by simp_all
  show ?case
  proof (cases ys)
    case Nil
    with prems(3) have "join [c] (x # xs) = []" by simp
    moreover from prems(1) have "\<forall>z\<in>set (x # xs). z \<noteq> []" by simp
    ultimately have "x # xs = []" by (simp only: join_Nil_iff)
    then show ?thesis by simp
  next
    case ys: (Cons y ys')
    from prems ys have y: "y \<noteq> []" "c \<notin> set y" by simp_all
    from prems(3) ys have e: "join [c] (x # xs) = join [c] (y # ys')" by simp
    show ?thesis
    proof (cases "xs = []")
      case xn: True
      show ?thesis
      proof (cases "ys' = []")
        case True
        with xn e ys show ?thesis by (simp add: join_Cons)
      next
        case False
        with xn e have "x = y @ c # join [c] ys'" by (simp add: join_Cons)
        then have "c \<in> set x" by simp
        with x show ?thesis by simp
      qed
    next
      case xn: False
      show ?thesis
      proof (cases "ys' = []")
        case True
        with xn e have "y = x @ c # join [c] xs" by (simp add: join_Cons)
        then have "c \<in> set y" by simp
        with y show ?thesis by simp
      next
        case False
        with xn e have "x @ c # join [c] xs = y @ c # join [c] ys'"
          by (simp add: join_Cons)
        from split_at_sep [OF x(2) y(2) this]
        have xy: "x = y" and j: "join [c] xs = join [c] ys'" by simp_all
        from prems(1) have p1: "\<forall>x\<in>set xs. x \<noteq> [] \<and> c \<notin> set x" by simp
        from prems(2) ys have p2: "\<forall>y\<in>set ys'. y \<noteq> [] \<and> c \<notin> set y" by simp
        from IH [OF p1 p2 j] xy ys show ?thesis by simp
      qed
    qed
  qed
qed

lemma join_str_int_inj:
  "join '','' (map str_int hs) = join '','' (map str_int hs') \<longleftrightarrow> hs = hs'"
proof
  assume e: "join '','' (map str_int hs) = join '','' (map str_int hs')"
  have p: "\<forall>x\<in>set (map str_int zs). x \<noteq> [] \<and> CHR '','' \<notin> set x" for zs
    by (simp add: str_int_no_comma str_int_not_Nil)
  from join_inj [OF p p e] have "map str_int hs = map str_int hs'" .
  then show "hs = hs'"
    by (simp add: inj_map_eq_map inj_on_def str_int_inj)
next
  assume "hs = hs'"
  then show "join '','' (map str_int hs) = join '','' (map str_int hs')" by simp
qed

section \<open>Printed lists\<close>

lemma prefix_codeD:
  "prefix_code R \<Longrightarrow> R x @ r = R y @ r' \<Longrightarrow> x = y \<and> r = r'"
  by (simp add: prefix_code_def)

lemma starts_outsideD:
  "starts_outside R \<Longrightarrow> \<exists>c u. R x = c # u \<and> c \<noteq> CHR '','' \<and> c \<noteq> CHR '']''"
  by (cases "R x") (auto simp: starts_outside_def dest: spec [of _ x])

lemma closed_join_prefix:
  assumes p: "prefix_code R" and s: "starts_outside R"
  shows "join '', '' (map R xs) @ CHR '']'' # r = join '', '' (map R ys) @ CHR '']'' # r'
           \<Longrightarrow> xs = ys \<and> r = r'"
proof (induction xs arbitrary: ys)
  case Nil
  show ?case
  proof (cases ys)
    case Nil
    with Nil.prems show ?thesis by simp
  next
    case (Cons y ys')
    from starts_outsideD [OF s, of y] obtain c u where "R y = c # u" "c \<noteq> CHR '']''"
      by blast
    with Nil.prems Cons show ?thesis by (simp add: join_Cons split: if_splits)
  qed
next
  case (Cons x xs)
  note prems = Cons.prems and IH = Cons.IH
  show ?case
  proof (cases ys)
    case Nil
    from starts_outsideD [OF s, of x] obtain c u where "R x = c # u" "c \<noteq> CHR '']''"
      by blast
    with prems Nil show ?thesis by (simp add: join_Cons split: if_splits)
  next
    case ys: (Cons y ys')
    obtain cx ux where cx: "R x = cx # ux" "cx \<noteq> CHR '',''" "cx \<noteq> CHR '']''"
      using starts_outsideD [OF s, of x] by blast
    show ?thesis
    proof (cases "xs = []")
      case xn: True
      show ?thesis
      proof (cases "ys' = []")
        case True
        with xn prems ys have "R x @ CHR '']'' # r = R y @ CHR '']'' # r'" by simp
        from prefix_codeD [OF p this] xn True ys show ?thesis by simp
      next
        case False
        with xn prems ys have
          "R x @ CHR '']'' # r
             = R y @ CHR '','' # CHR '' '' # join '', '' (map R ys') @ CHR '']'' # r'"
          by (simp add: join_Cons)
        from prefix_codeD [OF p this] show ?thesis by simp
      qed
    next
      case xn: False
      show ?thesis
      proof (cases "ys' = []")
        case True
        with xn prems ys have
          "R x @ CHR '','' # CHR '' '' # join '', '' (map R xs) @ CHR '']'' # r
             = R y @ CHR '']'' # r'"
          by (simp add: join_Cons)
        from prefix_codeD [OF p this] show ?thesis by simp
      next
        case False
        with xn prems ys have
          "R x @ CHR '','' # CHR '' '' # join '', '' (map R xs) @ CHR '']'' # r
             = R y @ CHR '','' # CHR '' '' # join '', '' (map R ys') @ CHR '']'' # r'"
          by (simp add: join_Cons)
        from prefix_codeD [OF p this]
        have xy: "x = y"
          and j: "join '', '' (map R xs) @ CHR '']'' # r
                    = join '', '' (map R ys') @ CHR '']'' # r'"
          by simp_all
        from IH [OF j] xy ys show ?thesis by simp
      qed
    qed
  qed
qed

lemma str_list_prefix_code:
  assumes "prefix_code R" "starts_outside R"
  shows "prefix_code (\<lambda>xs. str_list (map R xs))"
    and "starts_outside (\<lambda>xs. str_list (map R xs))"
proof -
  show "prefix_code (\<lambda>xs. str_list (map R xs))"
    unfolding prefix_code_def
  proof (intro allI impI)
    fix xs ys r r'
    assume "str_list (map R xs) @ r = str_list (map R ys) @ r'"
    then have "join '', '' (map R xs) @ CHR '']'' # r = join '', '' (map R ys) @ CHR '']'' # r'"
      by (simp add: str_list_def)
    then show "xs = ys \<and> r = r'"
      by (rule closed_join_prefix [OF assms])
  qed
  show "starts_outside (\<lambda>xs. str_list (map R xs))"
    by (simp add: starts_outside_def str_list_def)
qed

lemma str_data_strings:
  "str_data B (map (map PStr) d)
     = str_list (map (\<lambda>row. str_list (map (py_repr_str B) row)) d)"
  by (simp add: str_data_def comp_def)

lemma str_data_inj:
  assumes "prefix_code (py_repr_str B)" "starts_outside (py_repr_str B)"
  shows "str_data B (map (map PStr) d) = str_data B (map (map PStr) d') \<longleftrightarrow> d = d'"
proof
  assume e: "str_data B (map (map PStr) d) = str_data B (map (map PStr) d')"
  let ?R = "\<lambda>row. str_list (map (py_repr_str B) row)"
  from str_list_prefix_code [OF assms]
  have "prefix_code ?R" "starts_outside ?R" .
  from str_list_prefix_code(1) [OF this]
  have "prefix_code (\<lambda>d. str_list (map ?R d))" .
  moreover from e have "str_list (map ?R d) @ [] = str_list (map ?R d') @ []"
    by (simp add: str_data_strings)
  ultimately show "d = d'"
    by (blast dest: prefix_codeD)
qed simp

lemma quote_not_backslash: "quote \<noteq> CHR 0x5C"
  by (simp add: quote_def)

lemma escape_head:
  assumes "escape c @ u = quote # v"
  shows False
proof (cases "c = quote \<or> c = CHR 0x5C")
  case True
  with assms have "CHR 0x5C = quote" by (simp add: escape_def)
  with quote_not_backslash show False by simp
next
  case False
  with assms have "c = quote" by (simp add: escape_def)
  with False show False by simp
qed

lemma escape_prefix:
  assumes "escape c @ u = escape d @ v"
  shows "c = d \<and> u = v"
proof (cases "c = quote \<or> c = CHR 0x5C")
  case c: True
  show ?thesis
  proof (cases "d = quote \<or> d = CHR 0x5C")
    case True
    with c assms show ?thesis by (simp add: escape_def)
  next
    case False
    with c assms have "CHR 0x5C = d" by (simp add: escape_def)
    with False show ?thesis by simp
  qed
next
  case c: False
  show ?thesis
  proof (cases "d = quote \<or> d = CHR 0x5C")
    case True
    with c assms have "c = CHR 0x5C" by (simp add: escape_def)
    with c show ?thesis by simp
  next
    case False
    with c assms show ?thesis by (simp add: escape_def)
  qed
qed

lemma escaped_prefix:
  "concat (map escape s) @ quote # r = concat (map escape t) @ quote # r'
     \<Longrightarrow> s = t \<and> r = r'"
proof (induction s arbitrary: t)
  case Nil
  show ?case
  proof (cases t)
    case Nil
    with Nil.prems show ?thesis by simp
  next
    case (Cons d t')
    with Nil.prems have "escape d @ (concat (map escape t') @ quote # r') = quote # r"
      by simp
    then show ?thesis by (blast dest: escape_head)
  qed
next
  case (Cons c s)
  note prems = Cons.prems and IH = Cons.IH
  show ?case
  proof (cases t)
    case Nil
    with prems have "escape c @ (concat (map escape s) @ quote # r) = quote # r'"
      by simp
    then show ?thesis by (blast dest: escape_head)
  next
    case t: (Cons d t')
    with prems have "escape c @ (concat (map escape s) @ quote # r)
                       = escape d @ (concat (map escape t') @ quote # r')"
      by simp
    from escape_prefix [OF this]
    have "c = d" "concat (map escape s) @ quote # r = concat (map escape t') @ quote # r'"
      by simp_all
    with IH [of t'] t show ?thesis by simp
  qed
qed

lemma quoted_prefix_code: "prefix_code quoted" "starts_outside quoted"
proof -
  show "prefix_code quoted"
    unfolding prefix_code_def quoted_def
  proof (intro allI impI)
    fix x y :: string and r r' :: string
    assume "(quote # concat (map escape x) @ [quote]) @ r
              = (quote # concat (map escape y) @ [quote]) @ r'"
    then have "concat (map escape x) @ quote # r = concat (map escape y) @ quote # r'"
      by simp
    then show "x = y \<and> r = r'" by (rule escaped_prefix)
  qed
  show "starts_outside quoted"
    by (simp add: starts_outside_def quoted_def quote_def)
qed

section \<open>The hash of a built widget\<close>

lemma inj_ideal_hash: "inj ideal_hash"
proof (rule injI)
  fix s t :: string
  assume "ideal_hash s = ideal_hash t"
  then have "map (of_char :: char \<Rightarrow> nat) s = map of_char t"
    by (simp add: ideal_hash_def list_encode_eq)
  then show "s = t"
    by (simp add: inj_map_eq_map inj_on_def)
qed

lemma fingerprint_fun: "fingerprint B = (\<lambda>w. py_hash B (hashed_string B w))"
  by (rule ext) (simp add: fingerprint_def)

lemma fingerprint_spacer: "fingerprint B spacer = spacer_hash B"
  by (simp add: spacer_def spacer_hash_def fingerprint_def)

lemma not_None_map: "not_None (map (map_option f) xs) = map f (not_None xs)"
  by (induction xs) (auto simp: not_None_def)

lemma map_with_spacers: "map f (with_spacers s h al xs) = with_spacers (f s) h al (map f xs)"
  by (simp add: with_spacers_def)

lemma AxisAlignedBox_init_with_spacers:
  "AxisAlignedBox_init k children vertical al =
     Inr (AxisAlignedBox (Widget_init k)
            (with_spacers spacer (declared_Expanded children) al (not_None children)) vertical)"
  by (simp add: AxisAlignedBox_init_eq with_spacers_def)

lemma hash_of_built [simp]: "w_hash (built ctx h b) = h"
  by (simp add: built_def)

lemma hashed_string_box:
  "hashed_string B (AxisAlignedBox b cs v) = box_string (map (fingerprint B) cs)"
  by (simp add: fingerprint_fun)

lemma hashed_string_Column:
  "hashed_string B (Column b cs al ch)
     = ''Column('' @ str_int (py_hash B (box_string (stored_hashes B cs al))) @ '')''"
  "hashed_string B (Row b cs al ch)
     = ''Row('' @ str_int (py_hash B (box_string (stored_hashes B cs al))) @ '')''"
  by (simp_all add: stored_hashes_def not_None_map fingerprint_fun)

lemma fingerprint_box:
  "fingerprint B (AxisAlignedBox b cs v) = py_hash B (box_string (map (fingerprint B) cs))"
  by (simp only: fingerprint_def hashed_string_box)

lemma fingerprint_stored_box:
  "fingerprint B (AxisAlignedBox b
      (with_spacers spacer (declared_Expanded cs) al (not_None cs)) v)
     = py_hash B (box_string (stored_hashes B cs al))"
  by (simp only: fingerprint_box map_with_spacers fingerprint_spacer stored_hashes_def)

lemma build_fingerprint:
  "build B ctx w = Inr w' \<Longrightarrow>
     hash_of w' = fingerprint B w \<and> hashed_string B w' = hashed_string B w"
  "build_children B ctx ws = Inr ws' \<Longrightarrow>
     map hash_of ws' = map (fingerprint B) ws
     \<and> map (fingerprint B) ws' = map (fingerprint B) ws"
proof (induction B ctx w and B ctx ws arbitrary: w' and ws' rule: build_build_children.induct)
  case (4 B ctx b child flex)
  then show ?case by (auto simp: hash_of_def fingerprint_def split: sum.splits)
next
  case (5 B ctx b children vertical)
  from "5.prems" obtain children' where c: "build_children B ctx children = Inr children'"
    and w': "w' = AxisAlignedBox
                    (built ctx
                       (py_hash B (''AxisAlignedBox(children=[''
                          @ join '','' (map (\<lambda>child. str_int (hash_of child)) children')
                          @ ''])'')) b)
                    children' vertical"
    by (auto split: sum.splits)
  from "5.IH" [OF c] have ih: "map hash_of children' = map (fingerprint B) children"
    "map (fingerprint B) children' = map (fingerprint B) children"
    by simp_all
  have "hash_of w' = py_hash B (box_string (map hash_of children'))"
    by (simp add: w' hash_of_def [of "AxisAlignedBox _ _ _"] box_string_def comp_def)
  also have "\<dots> = fingerprint B (AxisAlignedBox b children vertical)"
    by (simp only: ih(1) fingerprint_box)
  finally have h: "hash_of w' = fingerprint B (AxisAlignedBox b children vertical)" .
  have "hashed_string B w' = hashed_string B (AxisAlignedBox b children vertical)"
    by (simp only: w' hashed_string_box ih(2))
  with h show ?case by simp
next
  case (6 B ctx b children al ch)
  let ?box = "AxisAlignedBox (Widget_init Key)
            (with_spacers spacer (declared_Expanded children) al (not_None children)) True"
  have box: "AxisAlignedBox_init Key children True al = Inr ?box"
    by (rule AxisAlignedBox_init_with_spacers)
  from "6.prems" box obtain child where child: "build B ctx ?box = Inr child"
    and w': "w' = Column (built ctx (py_hash B (''Column('' @ str_int (hash_of child) @ '')'')) b)
                    children al (Some child)"
    by (auto split: sum.splits)
  from "6.IH" [OF box child] have "hash_of child = fingerprint B ?box" by simp
  then have "hash_of child = py_hash B (box_string (stored_hashes B children al))"
    by (simp only: fingerprint_stored_box)
  then show ?case
    by (simp add: w' hash_of_def [of "Column _ _ _ _"] fingerprint_def [of B "Column _ _ _ _"]
        hashed_string_Column del: hashed_string.simps)
next
  case (7 B ctx b children al ch)
  let ?box = "AxisAlignedBox (Widget_init Key)
            (with_spacers spacer (declared_Expanded children) al (not_None children)) False"
  have box: "AxisAlignedBox_init Key children False al = Inr ?box"
    by (rule AxisAlignedBox_init_with_spacers)
  from "7.prems" box obtain child where child: "build B ctx ?box = Inr child"
    and w': "w' = Row (built ctx (py_hash B (''Row('' @ str_int (hash_of child) @ '')'')) b)
                    children al (Some child)"
    by (auto split: sum.splits)
  from "7.IH" [OF box child] have "hash_of child = fingerprint B ?box" by simp
  then have "hash_of child = py_hash B (box_string (stored_hashes B children al))"
    by (simp only: fingerprint_stored_box)
  then show ?case
    by (simp add: w' hash_of_def [of "Row _ _ _ _"] fingerprint_def [of B "Row _ _ _ _"]
        hashed_string_Column del: hashed_string.simps)
next
  case (11 B ctx child rest)
  then show ?case by (auto simp: fingerprint_def split: sum.splits)
qed (auto simp: hash_of_def fingerprint_def)

lemma build_twice:
  "\<exists>w'. build B ctx w = Inr w' \<and> hash_of w' = py_hash B (hashed_string B w)
      \<and> hashed_string B w' = hashed_string B w
      \<and> (\<exists>w''. build B ctx' w' = Inr w'' \<and> hash_of w'' = hash_of w')"
proof -
  obtain w' where w': "build B ctx w = Inr w'"
    using build_total(1) by blast
  obtain w'' where w'': "build B ctx' w' = Inr w''"
    using build_total(1) by blast
  from build_fingerprint(1) [OF w'] build_fingerprint(1) [OF w''] w' w''
  show ?thesis by (simp add: fingerprint_def)
qed

lemma dec_sep:
  "str_int a @ CHR '','' # r = str_int a' @ CHR '','' # r' \<longleftrightarrow> a = a' \<and> r = r'"
  using split_at_sep [OF str_int_no_comma str_int_no_comma, of a r a' r']
  by (auto simp: str_int_inj)

lemma join_str_int_map_inj:
  "join '','' (map (\<lambda>x. str_int (f x)) xs) = join '','' (map (\<lambda>x. str_int (f x)) ys)
     \<longleftrightarrow> map f xs = map f ys"
  using join_str_int_inj [of "map f xs" "map f ys"] by (simp add: comp_def)

lemma formatted_Text:
  "hashed_string B (Text b t) = hashed_string B (Text b' t') \<longleftrightarrow> t = t'"
  by simp

lemma formatted_LabelButton:
  "hashed_string B (LabelButton b l tt f) = hashed_string B (LabelButton b' l' tt f) \<longleftrightarrow> l = l'"
  "hashed_string B (LabelButton b l tt f) = hashed_string B (LabelButton b' l tt' f)
     \<longleftrightarrow> tt = tt'"
  "hashed_string B (LabelButton b l tt f) = hashed_string B (LabelButton b' l tt f')
     \<longleftrightarrow> str_type f = str_type f'"
  by simp_all

lemma formatted_TextField:
  "hashed_string B (TextField b p v f h) = hashed_string B (TextField b' p' v' f h) \<longleftrightarrow> p = p'"
  "hashed_string B (TextField b p v f h) = hashed_string B (TextField b' p v' f h')
     \<longleftrightarrow> h = h'"
  "hashed_string B (TextField b p v f h) = hashed_string B (TextField b' p v' f' h)
     \<longleftrightarrow> str_type f = str_type f'"
  by (simp_all add: str_bool_def)

lemma formatted_Expanded:
  "hashed_string B (Expanded b c n) = hashed_string B (Expanded b' c' n')
     \<longleftrightarrow> fingerprint B c = fingerprint B c' \<and> n = n'"
  by (simp add: dec_sep str_int_inj fingerprint_def)

lemma formatted_box:
  "hashed_string B (AxisAlignedBox b cs v) = hashed_string B (AxisAlignedBox b' cs' v')
     \<longleftrightarrow> map (fingerprint B) cs = map (fingerprint B) cs'"
  using join_str_int_inj [of "map (fingerprint B) cs" "map (fingerprint B) cs'"]
  by (simp only: hashed_string_box box_string_def) simp

lemma formatted_Column:
  "hashed_string B (Column b cs al ch) = hashed_string B (Column b' cs' al' ch')
     \<longleftrightarrow> py_hash B (box_string (stored_hashes B cs al))
          = py_hash B (box_string (stored_hashes B cs' al'))"
  "hashed_string B (Row b cs al ch) = hashed_string B (Row b' cs' al' ch')
     \<longleftrightarrow> py_hash B (box_string (stored_hashes B cs al))
          = py_hash B (box_string (stored_hashes B cs' al'))"
  by (simp_all only: hashed_string_Column) (simp_all add: str_int_inj)

lemma formatted_TableView:
  "hashed_string B (TableView b rows cols hs d s f)
     = hashed_string B (TableView b' rows' cols' hs' d' s' f')
     \<longleftrightarrow> rows = rows' \<and> cols = cols' \<and> str_data B d = str_data B d'"
  by (simp add: dec_sep)

lemma formatted_DropdownList:
  "hashed_string B (DropdownList b its i f) = hashed_string B (DropdownList b' its' i' f')
     \<longleftrightarrow> map (py_hash B) its = map (py_hash B) its'"
  by (simp add: join_str_int_map_inj)

lemma build_compare:
  "\<exists>w1' w2'. build B ctx w1 = Inr w1' \<and> build B ctx w2 = Inr w2'
      \<and> (hash_of w1' = hash_of w2'
           \<longleftrightarrow> py_hash B (hashed_string B w1) = py_hash B (hashed_string B w2))"
proof -
  obtain w1' where w1: "build B ctx w1 = Inr w1'"
    using build_total(1) by blast
  obtain w2' where w2: "build B ctx w2 = Inr w2'"
    using build_total(1) by blast
  from build_fingerprint(1) [OF w1] build_fingerprint(1) [OF w2] w1 w2
  show ?thesis by (simp add: fingerprint_def)
qed

text \<open>
  A hash into a bounded range, as the interpreter's is, cannot tell all strings apart.
\<close>

lemma bounded_hash_collides:
  assumes "\<forall>s. \<bar>py_hash B s\<bar> \<le> M"
  shows "\<exists>s t. s \<noteq> t \<and> py_hash B s = py_hash B t"
proof (rule ccontr)
  assume "\<not> (\<exists>s t. s \<noteq> t \<and> py_hash B s = py_hash B t)"
  then have "inj (py_hash B)" by (auto simp: inj_on_def)
  moreover have "- M \<le> py_hash B s \<and> py_hash B s \<le> M" for s
    using assms [rule_format, of s] by (simp add: abs_le_iff)
  then have "range (py_hash B) \<subseteq> {- M..M}" by auto
  then have "finite (range (py_hash B))" by (rule finite_subset) simp
  ultimately have "finite (UNIV :: string set)" by (rule finite_imageD [rotated])
  then show False by (simp add: infinite_UNIV_listI)
qed

text \<open>
  C2, as the claim states it, fails: with a string hash that has no collisions, two text
  fields that differ in their value only, two dropdown lists that differ in their index
  only, and two boxes that differ in their vertical flag only, have equal hashes after
  \<open>build\<close>. So have two tables that differ in their headers only, two buttons that
  differ in the identity of their callback only, two empty columns that differ in their
  alignment only, and two texts that differ in their key only.
\<close>

theorem C2_hash_ignores_value_index_vertical:
  "hash_of (projr (build example_builtins (BuildContext_init None)
                     (TextField_init Key '''' ''a'' False None)))
     = hash_of (projr (build example_builtins (BuildContext_init None)
                         (TextField_init Key '''' ''b'' False None)))
   \<and> hash_of (projr (build example_builtins (BuildContext_init None)
                       (DropdownList_init Key [PStr ''x'', PStr ''y''] 0 None)))
     = hash_of (projr (build example_builtins (BuildContext_init None)
                         (DropdownList_init Key [PStr ''x'', PStr ''y''] 1 None)))
   \<and> hash_of (projr (build example_builtins (BuildContext_init None)
                       (projr (AxisAlignedBox_init Key [Some (Text_init (Some ''t'') Key)]
                                 True Alignment_none))))
     = hash_of (projr (build example_builtins (BuildContext_init None)
                         (projr (AxisAlignedBox_init Key [Some (Text_init (Some ''t'') Key)]
                                   False Alignment_none))))
   \<and> hash_of (projr (build example_builtins (BuildContext_init None)
                       (TableView_init Key 1 1 [PStr ''g''] [] None None)))
     = hash_of (projr (build example_builtins (BuildContext_init None)
                         (TableView_init Key 1 1 [PStr ''h''] [] None None)))
   \<and> hash_of (projr (build example_builtins (BuildContext_init None)
                       (LabelButton_init Key ''go'' '''' (Some (Callback ''function'' 0)))))
     = hash_of (projr (build example_builtins (BuildContext_init None)
                         (LabelButton_init Key ''go'' '''' (Some (Callback ''function'' 1)))))
   \<and> hash_of (projr (build example_builtins (BuildContext_init None)
                       (Column_init Key [] Alignment_start)))
     = hash_of (projr (build example_builtins (BuildContext_init None)
                         (Column_init Key [] Alignment_end)))
   \<and> hash_of (projr (build example_builtins (BuildContext_init None)
                       (Text_init (Some ''t'') Key)))
     = hash_of (projr (build example_builtins (BuildContext_init None)
                         (Text_init (Some ''t'') (ValueKey (PInt 1)))))"
proof (intro conjI)
  show "hash_of (projr (build example_builtins (BuildContext_init None)
                     (TextField_init Key '''' ''a'' False None)))
     = hash_of (projr (build example_builtins (BuildContext_init None)
                         (TextField_init Key '''' ''b'' False None)))"
    by (simp add: TextField_init_def hash_of_def)
  show "hash_of (projr (build example_builtins (BuildContext_init None)
                       (DropdownList_init Key [PStr ''x'', PStr ''y''] 0 None)))
     = hash_of (projr (build example_builtins (BuildContext_init None)
                         (DropdownList_init Key [PStr ''x'', PStr ''y''] 1 None)))"
    by (simp add: DropdownList_init_def hash_of_def)
  show "hash_of (projr (build example_builtins (BuildContext_init None)
                       (projr (AxisAlignedBox_init Key [Some (Text_init (Some ''t'') Key)]
                                 True Alignment_none))))
     = hash_of (projr (build example_builtins (BuildContext_init None)
                         (projr (AxisAlignedBox_init Key [Some (Text_init (Some ''t'') Key)]
                                   False Alignment_none))))"
    by (simp add: AxisAlignedBox_init_eq declared_Expanded_def not_None_def Text_init_def
        hash_of_def)
  show "hash_of (projr (build example_builtins (BuildContext_init None)
                       (TableView_init Key 1 1 [PStr ''g''] [] None None)))
     = hash_of (projr (build example_builtins (BuildContext_init None)
                         (TableView_init Key 1 1 [PStr ''h''] [] None None)))"
    by (simp add: TableView_init_def hash_of_def)
  show "hash_of (projr (build example_builtins (BuildContext_init None)
                       (LabelButton_init Key ''go'' '''' (Some (Callback ''function'' 0)))))
     = hash_of (projr (build example_builtins (BuildContext_init None)
                         (LabelButton_init Key ''go'' '''' (Some (Callback ''function'' 1)))))"
    by (simp add: LabelButton_init_def hash_of_def)
  show "hash_of (projr (build example_builtins (BuildContext_init None)
                       (Column_init Key [] Alignment_start)))
     = hash_of (projr (build example_builtins (BuildContext_init None)
                         (Column_init Key [] Alignment_end)))"
    by (simp add: Column_init_def AxisAlignedBox_init_eq declared_Expanded_def not_None_def
        spacer_def hash_of_def)
  show "hash_of (projr (build example_builtins (BuildContext_init None)
                       (Text_init (Some ''t'') Key)))
     = hash_of (projr (build example_builtins (BuildContext_init None)
                         (Text_init (Some ''t'') (ValueKey (PInt 1)))))"
    by (simp add: Text_init_def hash_of_def)
qed

text \<open>
  C2, amended. \<open>build\<close> always succeeds, and the hash it stores is the interpreter's
  hash of the string \<open>hashed_string\<close>, a function of the widget's description, whatever
  the context and the state of the widget before; building the built widget again, with
  any context, stores the same hash, and two widgets get equal hashes exactly when the
  interpreter's hash is equal on their two strings. The string changes with every value
  that \<open>build\<close> formats: with the text of a \<open>Text\<close>; with the label, the tool tip and the
  class of the callback of a \<open>LabelButton\<close>; with the placeholder, the hidden flag and the
  class of the callback of a \<open>TextField\<close>; with the hash of the child and the flex of an
  \<open>Expanded\<close>; with the hashes of the children of a box; with the hash of the box of a
  \<open>Column\<close> or \<open>Row\<close>; with the rows, the columns and \<open>str(data)\<close> of a \<open>TableView\<close>; with
  the hashes of the items of a \<open>DropdownList\<close>. The string of a box tells the hashes of
  its children apart, and \<open>str(data)\<close> tells the data of string cells apart when \<open>repr\<close>
  on strings can be read back from the front of a text and starts with neither a comma
  nor a closing bracket, as the quoting \<open>repr\<close> does.
\<close>

theorem C2_hash_of_formatted_string:
  "(\<exists>w'. build B ctx w = Inr w' \<and> hash_of w' = py_hash B (hashed_string B w)
       \<and> hashed_string B w' = hashed_string B w
       \<and> (\<exists>w''. build B ctx' w' = Inr w'' \<and> hash_of w'' = hash_of w'))
   \<and> (\<exists>w1' w2'. build B ctx w1 = Inr w1' \<and> build B ctx w2 = Inr w2'
         \<and> (hash_of w1' = hash_of w2'
              \<longleftrightarrow> py_hash B (hashed_string B w1) = py_hash B (hashed_string B w2)))
   \<and> fingerprint B c = py_hash B (hashed_string B c)
   \<and> (hashed_string B (Text b t) = hashed_string B (Text b' t') \<longleftrightarrow> t = t')
   \<and> (hashed_string B (LabelButton b l tt f) = hashed_string B (LabelButton b' l' tt f)
        \<longleftrightarrow> l = l')
   \<and> (hashed_string B (LabelButton b l tt f) = hashed_string B (LabelButton b' l tt' f)
        \<longleftrightarrow> tt = tt')
   \<and> (hashed_string B (LabelButton b l tt f) = hashed_string B (LabelButton b' l tt f')
        \<longleftrightarrow> str_type f = str_type f')
   \<and> (hashed_string B (TextField b p v f h) = hashed_string B (TextField b' p' v' f h)
        \<longleftrightarrow> p = p')
   \<and> (hashed_string B (TextField b p v f h) = hashed_string B (TextField b' p v' f h')
        \<longleftrightarrow> h = h')
   \<and> (hashed_string B (TextField b p v f h) = hashed_string B (TextField b' p v' f' h)
        \<longleftrightarrow> str_type f = str_type f')
   \<and> (hashed_string B (Expanded b c n) = hashed_string B (Expanded b' c' n')
        \<longleftrightarrow> fingerprint B c = fingerprint B c' \<and> n = n')
   \<and> (hashed_string B (AxisAlignedBox b cs vert) = hashed_string B (AxisAlignedBox b' cs' vert')
        \<longleftrightarrow> map (fingerprint B) cs = map (fingerprint B) cs')
   \<and> (hashed_string B (Column b ds al ch) = hashed_string B (Column b' ds' al' ch')
        \<longleftrightarrow> py_hash B (box_string (stored_hashes B ds al))
             = py_hash B (box_string (stored_hashes B ds' al')))
   \<and> (hashed_string B (Row b ds al ch) = hashed_string B (Row b' ds' al' ch')
        \<longleftrightarrow> py_hash B (box_string (stored_hashes B ds al))
             = py_hash B (box_string (stored_hashes B ds' al')))
   \<and> (hashed_string B (TableView b rows cols hs d s g)
         = hashed_string B (TableView b' rows' cols' hs' d' s' g')
        \<longleftrightarrow> rows = rows' \<and> cols = cols' \<and> str_data B d = str_data B d')
   \<and> (hashed_string B (DropdownList b its i g) = hashed_string B (DropdownList b' its' i' g')
        \<longleftrightarrow> map (py_hash B) its = map (py_hash B) its')
   \<and> (box_string ks = box_string ks' \<longleftrightarrow> ks = ks')
   \<and> (prefix_code (py_repr_str B) \<and> starts_outside (py_repr_str B) \<longrightarrow>
        (str_data B (map (map PStr) cells) = str_data B (map (map PStr) cells')
           \<longleftrightarrow> cells = cells'))"
proof (intro conjI impI)
  show "\<exists>w'. build B ctx w = Inr w' \<and> hash_of w' = py_hash B (hashed_string B w)
       \<and> hashed_string B w' = hashed_string B w
       \<and> (\<exists>w''. build B ctx' w' = Inr w'' \<and> hash_of w'' = hash_of w')"
    by (rule build_twice)
  show "\<exists>w1' w2'. build B ctx w1 = Inr w1' \<and> build B ctx w2 = Inr w2'
         \<and> (hash_of w1' = hash_of w2'
              \<longleftrightarrow> py_hash B (hashed_string B w1) = py_hash B (hashed_string B w2))"
    by (rule build_compare)
  show "fingerprint B c = py_hash B (hashed_string B c)"
    by (rule fingerprint_def)
  show "box_string ks = box_string ks' \<longleftrightarrow> ks = ks'"
    by (simp add: box_string_def join_str_int_inj)
  show "str_data B (map (map PStr) cells) = str_data B (map (map PStr) cells')
          \<longleftrightarrow> cells = cells'"
    if "prefix_code (py_repr_str B) \<and> starts_outside (py_repr_str B)"
    using that by (simp add: str_data_inj)
qed (rule formatted_Text formatted_LabelButton formatted_TextField formatted_Expanded
       formatted_box formatted_Column formatted_TableView formatted_DropdownList)+

theorem C2_hash_of_formatted_string_witness:
  "prefix_code (py_repr_str example_builtins)
   \<and> starts_outside (py_repr_str example_builtins)
   \<and> (\<exists>w1' w2'.
         build example_builtins (BuildContext_init None)
           (Expanded (Widget_init Key) (Text_init (Some ''t'') Key) 1) = Inr w1'
         \<and> build example_builtins (BuildContext_init None)
             (Expanded (Widget_init Key) (Text_init (Some ''t'') Key) 2) = Inr w2'
         \<and> hash_of w1' \<noteq> hash_of w2')
   \<and> (\<exists>t1' t2'.
         build example_builtins (BuildContext_init None)
           (TableView_init Key 1 1 [] [[PStr ''a'']] None None) = Inr t1'
         \<and> build example_builtins (BuildContext_init None)
             (TableView_init Key 1 1 [] [[PStr ''b'']] None None) = Inr t2'
         \<and> hash_of t1' \<noteq> hash_of t2')"
proof -
  let ?B = example_builtins
  let ?ctx = "BuildContext_init None"
  let ?c = "Text_init (Some ''t'') Key"
  let ?w1 = "Expanded (Widget_init Key) ?c 1"
  let ?w2 = "Expanded (Widget_init Key) ?c 2"
  let ?t1 = "TableView (Widget_init Key) 1 1 [] (map (map PStr) [[''a'']]) None None"
  let ?t2 = "TableView (Widget_init Key) 1 1 [] (map (map PStr) [[''b'']]) None None"
  have h: "py_hash ?B s = py_hash ?B t \<longleftrightarrow> s = t" for s t
    by (simp add: example_builtins_def inj_eq [OF inj_ideal_hash])
  have p: "prefix_code (py_repr_str ?B) \<and> starts_outside (py_repr_str ?B)"
    by (simp add: example_builtins_def quoted_prefix_code)
  note T = C2_hash_of_formatted_string
    [where B = ?B and ctx = ?ctx and ?w1.0 = ?w1 and ?w2.0 = ?w2
       and b = "Widget_init Key" and b' = "Widget_init Key" and c = ?c and c' = ?c
       and n = 1 and n' = 2]
  from T [THEN conjunct2, THEN conjunct1] obtain w1' w2' where
    b1: "build ?B ?ctx ?w1 = Inr w1'"
    and b2: "build ?B ?ctx ?w2 = Inr w2'"
    and e: "hash_of w1' = hash_of w2'
             \<longleftrightarrow> py_hash ?B (hashed_string ?B ?w1) = py_hash ?B (hashed_string ?B ?w2)"
    by blast
  note s = T [THEN conjunct2, THEN conjunct2, THEN conjunct2, THEN conjunct2,
    THEN conjunct2, THEN conjunct2, THEN conjunct2, THEN conjunct2, THEN conjunct2,
    THEN conjunct2, THEN conjunct1]
  from e have "hash_of w1' = hash_of w2' \<longleftrightarrow> hashed_string ?B ?w1 = hashed_string ?B ?w2"
    by (simp only: h)
  with s have "hash_of w1' \<noteq> hash_of w2'" by simp
  with b1 b2 have A: "\<exists>w1' w2'. build ?B ?ctx ?w1 = Inr w1' \<and> build ?B ?ctx ?w2 = Inr w2'
                        \<and> hash_of w1' \<noteq> hash_of w2'"
    by blast
  note U = C2_hash_of_formatted_string
    [where B = ?B and ctx = ?ctx and ?w1.0 = ?t1 and ?w2.0 = ?t2
       and b = "Widget_init Key" and b' = "Widget_init Key"
       and rows = 1 and rows' = 1 and cols = 1 and cols' = 1
       and hs = "[]" and hs' = "[]" and s = None and s' = None and g = None and g' = None
       and d = "map (map PStr) [[''a'']]" and d' = "map (map PStr) [[''b'']]"
       and cells = "[[''a'']]" and cells' = "[[''b'']]"]
  from U [THEN conjunct2, THEN conjunct1] obtain t1' t2' where
    c1: "build ?B ?ctx ?t1 = Inr t1'"
    and c2: "build ?B ?ctx ?t2 = Inr t2'"
    and f: "hash_of t1' = hash_of t2'
             \<longleftrightarrow> py_hash ?B (hashed_string ?B ?t1) = py_hash ?B (hashed_string ?B ?t2)"
    by blast
  note tv = U [THEN conjunct2, THEN conjunct2, THEN conjunct2, THEN conjunct2,
    THEN conjunct2, THEN conjunct2, THEN conjunct2, THEN conjunct2, THEN conjunct2,
    THEN conjunct2, THEN conjunct2, THEN conjunct2, THEN conjunct2, THEN conjunct2,
    THEN conjunct1]
  note dt = U [THEN conjunct2, THEN conjunct2, THEN conjunct2, THEN conjunct2,
    THEN conjunct2, THEN conjunct2, THEN conjunct2, THEN conjunct2, THEN conjunct2,
    THEN conjunct2, THEN conjunct2, THEN conjunct2, THEN conjunct2, THEN conjunct2,
    THEN conjunct2, THEN conjunct2, THEN conjunct2, THEN mp, OF p]
  from dt have "str_data ?B (map (map PStr) [[''a'']]) \<noteq> str_data ?B (map (map PStr) [[''b'']])"
    by simp
  with tv have "hashed_string ?B ?t1 \<noteq> hashed_string ?B ?t2" by simp
  with f have "hash_of t1' \<noteq> hash_of t2'" by (simp only: h) simp
  with c1 c2 have "\<exists>t1' t2'. build ?B ?ctx ?t1 = Inr t1' \<and> build ?B ?ctx ?t2 = Inr t2'
                        \<and> hash_of t1' \<noteq> hash_of t2'"
    by blast
  then have C: "\<exists>t1' t2'.
         build ?B ?ctx (TableView_init Key 1 1 [] [[PStr ''a'']] None None) = Inr t1'
         \<and> build ?B ?ctx (TableView_init Key 1 1 [] [[PStr ''b'']] None None) = Inr t2'
         \<and> hash_of t1' \<noteq> hash_of t2'"
    by (simp add: TableView_init_def)
  from p A C show ?thesis by (intro conjI) simp_all
qed

end
